theory Spec2Isabelle
  imports Complex_Main "HOL-Library.Monad_Syntax"
begin

section \<open>Data model\<close>

text \<open>
  A JavaScript \<open>number\<close> is modelled as a rational: every finite double is one.
  \<open>NaN\<close> and the two infinities are left out of the model.
\<close>

type_synonym number = rat

text \<open>The column letter of a cell: \<open>'B' | 'I' | 'N' | 'G' | 'O'\<close>.\<close>

datatype column = ColB | ColI | ColN | ColG | ColO

text \<open>
  The value of a cell, \<open>number | 'FREE' | ''\<close>: a number, the string \<open>'FREE'\<close>, or the
  empty string of a cell that was never filled in (\<open>Unset\<close>).
\<close>

datatype cell_value = Num number | FREE | Unset

text \<open>\<open>BingoCell\<close>; the field \<open>value\<close> is named \<open>cvalue\<close> here.\<close>

record BingoCell =
  column :: column
  cvalue :: cell_value
  marked :: bool

text \<open>
  \<open>BingoCard\<close>; \<open>id\<close>, \<open>name\<close> and \<open>createdAt\<close> carry the prefix \<open>card_\<close>, since the
  pattern has fields of the same names. The optional \<open>name\<close> is an option. A variable
  for a card is written \<open>bcard\<close>, since \<open>card\<close> is the cardinality of a set in HOL.
\<close>

record BingoCard =
  card_id :: string
  card_name :: "string option"
  cells :: "BingoCell list list"
  card_createdAt :: number

text \<open>\<open>WinningPattern\<close>: \<open>grid\<close> is a 5x5 grid where \<open>True\<close> is a required square.\<close>

record WinningPattern =
  pattern_id :: string
  pattern_name :: string
  grid :: "bool list list"
  pattern_createdAt :: number

record GameSession =
  activeCardIds :: "string list"
  activePatternIds :: "string list"
  calledNumbers :: "number list"
  sessionStartTime :: number
  isActive :: bool

section \<open>Game session (gameSession.ts)\<close>

text \<open>
  \<open>Number.isInteger(num) && num >= 1 && num <= 75\<close>. A finite number is an integer
  when it equals its floor.
\<close>

definition isValidBingoNumber :: "number \<Rightarrow> bool" where
  "isValidBingoNumber num \<longleftrightarrow> of_int \<lfloor>num\<rfloor> = num \<and> 1 \<le> num \<and> num \<le> 75"

text \<open>\<open>throw new Error(msg)\<close> is the value \<open>Inl (Error msg)\<close>.\<close>

datatype error = Error string

definition addCalledNumber :: "GameSession \<Rightarrow> number \<Rightarrow> error + GameSession" where
  "addCalledNumber session n =
     (if \<not> isValidBingoNumber n then Inl (Error ''Invalid Bingo number'')
      else if n \<in> set (calledNumbers session) then Inl (Error ''Number already called'')
      else Inr (session\<lparr>calledNumbers := calledNumbers session @ [n]\<rparr>))"

text \<open>
  \<open>calledNumbers.includes(cell.value as number)\<close>: the cast does nothing at run time, so
  the search is for the cell's value as it is; a list of numbers holds neither \<open>'FREE'\<close>
  nor \<open>''\<close>.
\<close>

definition includesValue :: "number list \<Rightarrow> cell_value \<Rightarrow> bool" where
  "includesValue xs v = (case v of Num n \<Rightarrow> n \<in> set xs | FREE \<Rightarrow> False | Unset \<Rightarrow> False)"

text \<open>
  \<open>applyCalledNumbersToCards\<close>: every card is copied with each cell's \<open>marked\<close> set to
  \<open>cell.value === "FREE" || (cell.value !== 0 && calledNumbers.includes(cell.value))\<close>.
\<close>

definition applyCalledNumbersToCards :: "BingoCard list \<Rightarrow> number list \<Rightarrow> BingoCard list" where
  "applyCalledNumbersToCards cards called =
     map (\<lambda>bcard. bcard\<lparr>cells :=
            map (\<lambda>row. map (\<lambda>cell. cell\<lparr>marked :=
                   (cvalue cell = FREE \<or> (cvalue cell \<noteq> Num 0 \<and> includesValue called (cvalue cell)))\<rparr>) row)
              (cells bcard)\<rparr>) cards"

section \<open>Reading cells and running loops\<close>

text \<open>
  The functions of the pattern service read \<open>card.cells[row][col]\<close> and
  \<open>pattern.grid[row][col]\<close> by index and throw nothing themselves, so the only way they
  fail is the \<open>TypeError\<close> of JavaScript for a property read on \<open>undefined\<close>. They
  return an option: \<open>None\<close> is that \<open>TypeError\<close>.

  \<open>card.cells[row][col]\<close>: a missing row is \<open>undefined\<close>, and indexing it throws
  (outer \<open>None\<close>); a missing column in a row that exists gives \<open>undefined\<close> without
  throwing (inner \<open>None\<close>).
\<close>

definition cellAt :: "BingoCard \<Rightarrow> nat \<Rightarrow> nat \<Rightarrow> BingoCell option option" where
  "cellAt bcard row col =
     (if row < length (cells bcard)
      then Some (if col < length (cells bcard ! row) then Some (cells bcard ! row ! col) else None)
      else None)"

text \<open>\<open>cell.f\<close> for a field \<open>f\<close>: throws when \<open>cell\<close> is \<open>undefined\<close>.\<close>

definition readField :: "('a \<Rightarrow> 'b) \<Rightarrow> 'a option \<Rightarrow> 'b option" where
  "readField f cell = (case cell of None \<Rightarrow> None | Some c \<Rightarrow> Some (f c))"

text \<open>
  \<open>pattern.grid[row][col]\<close> used as a condition: a missing row throws, a missing column
  is \<open>undefined\<close>, which is falsy.
\<close>

definition gridAt :: "WinningPattern \<Rightarrow> nat \<Rightarrow> nat \<Rightarrow> bool option" where
  "gridAt pattern row col =
     (if row < length (grid pattern)
      then Some (col < length (grid pattern ! row) \<and> grid pattern ! row ! col)
      else None)"

text \<open>
  A \<open>for\<close> loop over \<open>xs\<close> that updates a state and runs to the end unless an
  iteration throws.
\<close>

primrec forEach :: "'a list \<Rightarrow> ('a \<Rightarrow> 's \<Rightarrow> 's option) \<Rightarrow> 's \<Rightarrow> 's option" where
  "forEach [] body s = Some s"
| "forEach (x # xs) body s = Option.bind (body x s) (forEach xs body)"

text \<open>
  A loop that leaves with \<open>true\<close> at the first iteration whose test holds and gives
  \<open>false\<close> after the last one; the iterations after the exit are not run.
\<close>

primrec anyOf :: "'a list \<Rightarrow> ('a \<Rightarrow> bool option) \<Rightarrow> bool option" where
  "anyOf [] test = Some False"
| "anyOf (x # xs) test = Option.bind (test x) (\<lambda>b. if b then Some True else anyOf xs test)"

text \<open>
  A loop that leaves with \<open>false\<close> at the first iteration whose test fails (a
  \<open>return false\<close>, or a flag set to \<open>false\<close> followed by \<open>break\<close>) and gives \<open>true\<close>
  after the last one.
\<close>

primrec allOf :: "'a list \<Rightarrow> ('a \<Rightarrow> bool option) \<Rightarrow> bool option" where
  "allOf [] test = Some True"
| "allOf (x # xs) test = Option.bind (test x) (\<lambda>b. if b then allOf xs test else Some False)"

text \<open>
  A JavaScript \<open>Set\<close> is a list without repetition in insertion order, which is the
  order \<open>Array.from\<close> returns; \<open>add\<close> appends a value that is not yet there.
\<close>

definition setAdd :: "'a list \<Rightarrow> 'a \<Rightarrow> 'a list" where
  "setAdd s x = (if x \<in> set s then s else s @ [x])"

section \<open>Pattern matching (patternService.ts)\<close>

subsection \<open>checkPattern\<close>

text \<open>
  The body of the pair loops of \<open>checkPattern\<close> once the two cells are fetched: skip a
  pair that includes the FREE space, else report whether both cells are marked.
\<close>

definition pairComplete :: "BingoCell option \<Rightarrow> BingoCell option \<Rightarrow> bool option" where
  "pairComplete leftCell rightCell = do {
     lv \<leftarrow> readField cvalue leftCell;
     if lv = FREE then Some False
     else do {
       rv \<leftarrow> readField cvalue rightCell;
       if rv = FREE then Some False
       else do {
         lm \<leftarrow> readField marked leftCell;
         if lm then readField marked rightCell else Some False
       }
     }
   }"

definition checkPattern :: "BingoCard \<Rightarrow> WinningPattern \<Rightarrow> bool option" where
  "checkPattern bcard pattern =
     (if pattern_name pattern = ''Dikit'' then
        anyOf [0..<5] (\<lambda>row. anyOf [0..<4] (\<lambda>col. do {
          leftCell \<leftarrow> cellAt bcard row col;
          rightCell \<leftarrow> cellAt bcard row (col + 1);
          pairComplete leftCell rightCell
        }))
      else if pattern_name pattern = ''Patong'' then
        anyOf [0..<4] (\<lambda>row. anyOf [0..<5] (\<lambda>col. do {
          topCell \<leftarrow> cellAt bcard row col;
          bottomCell \<leftarrow> cellAt bcard (row + 1) col;
          pairComplete topCell bottomCell
        }))
      else if pattern_name pattern = ''Horizontal Line'' then
        anyOf [0..<5] (\<lambda>row. allOf [0..<5] (\<lambda>col. do {
          cell \<leftarrow> cellAt bcard row col;
          readField marked cell
        }))
      else if pattern_name pattern = ''Vertical Line'' then
        anyOf [0..<5] (\<lambda>col. allOf [0..<5] (\<lambda>row. do {
          cell \<leftarrow> cellAt bcard row col;
          readField marked cell
        }))
      else if pattern_name pattern = ''Diagonal Line'' then do {
        mainDiagonalComplete \<leftarrow> allOf [0..<5] (\<lambda>i. do {
          cell \<leftarrow> cellAt bcard i i;
          readField marked cell
        });
        if mainDiagonalComplete then Some True
        else allOf [0..<5] (\<lambda>i. do {
          cell \<leftarrow> cellAt bcard i (4 - i);
          readField marked cell
        })
      }
      else
        allOf [0..<5] (\<lambda>row. allOf [0..<5] (\<lambda>col. do {
          required \<leftarrow> gridAt pattern row col;
          if required then do {
            cell \<leftarrow> cellAt bcard row col;
            readField marked cell
          }
          else Some True
        })))"

subsection \<open>getMissingNumbers\<close>

text \<open>
  One pair of the Dikit and Patong loops of \<open>getMissingNumbers\<close>, from \<open>markedCount\<close>
  on: a pair with a marked cell that beats the best count so far clears the set, and a
  pair that equals the best count adds its unmarked values.
\<close>

fun addPairMissing ::
  "cell_value \<Rightarrow> bool \<Rightarrow> cell_value \<Rightarrow> bool \<Rightarrow> cell_value list \<times> nat \<Rightarrow> cell_value list \<times> nat" where
  "addPairMissing lv isLeftMarked rv isRightMarked (missingSet, bestPairMarkedCount) =
     (let markedCount = (if isLeftMarked then 1 else 0) + (if isRightMarked then 1 else (0::nat)) in
      if markedCount > 0 then
        (let (missingSet1, best1) =
               (if markedCount > bestPairMarkedCount then ([], markedCount)
                else (missingSet, bestPairMarkedCount)) in
         if markedCount = best1 then
           (let missingSet2 = (if \<not> isLeftMarked then setAdd missingSet1 lv else missingSet1);
                missingSet3 = (if \<not> isRightMarked then setAdd missingSet2 rv else missingSet2)
            in (missingSet3, best1))
         else (missingSet1, best1))
      else (missingSet, bestPairMarkedCount))"

definition pairMissing ::
  "BingoCell option \<Rightarrow> BingoCell option \<Rightarrow> cell_value list \<times> nat \<Rightarrow> (cell_value list \<times> nat) option" where
  "pairMissing leftCell rightCell st = do {
     lv \<leftarrow> readField cvalue leftCell;
     if lv = FREE then Some st
     else do {
       rv \<leftarrow> readField cvalue rightCell;
       if rv = FREE then Some st
       else do {
         isLeftMarked \<leftarrow> readField marked leftCell;
         isRightMarked \<leftarrow> readField marked rightCell;
         Some (addPairMissing lv isLeftMarked rv isRightMarked st)
       }
     }
   }"

text \<open>
  The inner loop of the line patterns over the five cells of one row, column or
  diagonal: the number of marked cells and the values of the unmarked cells that are not
  FREE.
\<close>

definition scanLine :: "BingoCard \<Rightarrow> (nat \<times> nat) list \<Rightarrow> (nat \<times> cell_value list) option" where
  "scanLine bcard positions =
     forEach positions (\<lambda>(row, col) (markedCount, lineMissing). do {
       cell \<leftarrow> cellAt bcard row col;
       m \<leftarrow> readField marked cell;
       if m then Some (markedCount + 1, lineMissing)
       else do {
         v \<leftarrow> readField cvalue cell;
         Some (markedCount, if v \<noteq> FREE then lineMissing @ [v] else lineMissing)
       }
     }) (0, [])"

text \<open>One row or column of \<open>getMissingNumbers\<close>, after its cells are counted.\<close>

fun addLineMissing ::
  "nat \<Rightarrow> cell_value list \<Rightarrow> cell_value list \<times> nat \<Rightarrow> cell_value list \<times> nat" where
  "addLineMissing markedCount lineMissing (missingSet, bestMarkedCount) =
     (if markedCount > 0 then
        (let (missingSet1, best1) =
               (if markedCount > bestMarkedCount then ([], markedCount)
                else (missingSet, bestMarkedCount)) in
         if markedCount = best1 then (foldl setAdd missingSet1 lineMissing, best1)
         else (missingSet1, best1))
      else (missingSet, bestMarkedCount))"

text \<open>
  The loop of the standard patterns, the same in \<open>getMissingNumbers\<close> and
  \<open>getWinningPaths\<close>: the values of the required cells that are unmarked and not FREE.
\<close>

definition standardMissing :: "BingoCard \<Rightarrow> WinningPattern \<Rightarrow> cell_value list option" where
  "standardMissing bcard pattern =
     forEach [0..<5] (\<lambda>row. forEach [0..<5] (\<lambda>col missing. do {
       required \<leftarrow> gridAt pattern row col;
       if required then do {
         cell \<leftarrow> cellAt bcard row col;
         m \<leftarrow> readField marked cell;
         if \<not> m then do {
           v \<leftarrow> readField cvalue cell;
           Some (if v \<noteq> FREE then missing @ [v] else missing)
         }
         else Some missing
       }
       else Some missing
     })) []"

definition getMissingNumbers :: "BingoCard \<Rightarrow> WinningPattern \<Rightarrow> cell_value list option" where
  "getMissingNumbers bcard pattern =
     (if pattern_name pattern = ''Dikit'' then do {
        (missingSet, best) \<leftarrow> forEach [0..<5] (\<lambda>row. forEach [0..<4] (\<lambda>col st. do {
          leftCell \<leftarrow> cellAt bcard row col;
          rightCell \<leftarrow> cellAt bcard row (col + 1);
          pairMissing leftCell rightCell st
        })) ([], 0);
        Some missingSet
      }
      else if pattern_name pattern = ''Patong'' then do {
        (missingSet, best) \<leftarrow> forEach [0..<4] (\<lambda>row. forEach [0..<5] (\<lambda>col st. do {
          topCell \<leftarrow> cellAt bcard row col;
          bottomCell \<leftarrow> cellAt bcard (row + 1) col;
          pairMissing topCell bottomCell st
        })) ([], 0);
        Some missingSet
      }
      else if pattern_name pattern = ''Horizontal Line'' then do {
        (missingSet, best) \<leftarrow> forEach [0..<5] (\<lambda>row st. do {
          (markedCount, rowMissing) \<leftarrow> scanLine bcard (map (\<lambda>col. (row, col)) [0..<5]);
          Some (addLineMissing markedCount rowMissing st)
        }) ([], 0);
        Some missingSet
      }
      else if pattern_name pattern = ''Vertical Line'' then do {
        (missingSet, best) \<leftarrow> forEach [0..<5] (\<lambda>col st. do {
          (markedCount, colMissing) \<leftarrow> scanLine bcard (map (\<lambda>row. (row, col)) [0..<5]);
          Some (addLineMissing markedCount colMissing st)
        }) ([], 0);
        Some missingSet
      }
      else if pattern_name pattern = ''Diagonal Line'' then do {
        (mainMarkedCount, mainMissing) \<leftarrow> scanLine bcard (map (\<lambda>i. (i, i)) [0..<5]);
        (antiMarkedCount, antiMissing) \<leftarrow> scanLine bcard (map (\<lambda>i. (i, 4 - i)) [0..<5]);
        let bestDiagonalMarkedCount = max mainMarkedCount antiMarkedCount;
        Some (if bestDiagonalMarkedCount > 0 then
                (let missingSet1 = (if mainMarkedCount = bestDiagonalMarkedCount
                                    then foldl setAdd [] mainMissing else []);
                     missingSet2 = (if antiMarkedCount = bestDiagonalMarkedCount
                                    then foldl setAdd missingSet1 antiMissing else missingSet1)
                 in missingSet2)
              else [])
      }
      else standardMissing bcard pattern)"

subsection \<open>isOnPot\<close>

definition isOnPot :: "BingoCard \<Rightarrow> WinningPattern \<Rightarrow> bool option" where
  "isOnPot bcard pattern = do {
     missing \<leftarrow> getMissingNumbers bcard pattern;
     Some (length missing = 1)
   }"

subsection \<open>getWinningPaths\<close>

text \<open>
  One pair of the Dikit and Patong loops of \<open>getWinningPaths\<close>, from \<open>markedCount\<close> on:
  a pair that beats the best count empties \<open>paths\<close>, and a pair that equals the best
  count is pushed as the list of its unmarked values, unless that list is empty.
\<close>

fun addPairPath ::
  "cell_value \<Rightarrow> bool \<Rightarrow> cell_value \<Rightarrow> bool \<Rightarrow> cell_value list list \<times> nat
     \<Rightarrow> cell_value list list \<times> nat" where
  "addPairPath lv isLeftMarked rv isRightMarked (paths, bestPairMarkedCount) =
     (let markedCount = (if isLeftMarked then 1 else 0) + (if isRightMarked then 1 else (0::nat)) in
      if markedCount > 0 then
        (let (paths1, best1) =
               (if markedCount > bestPairMarkedCount then ([], markedCount)
                else (paths, bestPairMarkedCount)) in
         if markedCount = best1 then
           (let pathMissing = (if \<not> isLeftMarked then [lv] else []) @ (if \<not> isRightMarked then [rv] else [])
            in (if length pathMissing > 0 then paths1 @ [pathMissing] else paths1, best1))
         else (paths1, best1))
      else (paths, bestPairMarkedCount))"

definition pairPath ::
  "BingoCell option \<Rightarrow> BingoCell option \<Rightarrow> cell_value list list \<times> nat
     \<Rightarrow> (cell_value list list \<times> nat) option" where
  "pairPath leftCell rightCell st = do {
     lv \<leftarrow> readField cvalue leftCell;
     if lv = FREE then Some st
     else do {
       rv \<leftarrow> readField cvalue rightCell;
       if rv = FREE then Some st
       else do {
         isLeftMarked \<leftarrow> readField marked leftCell;
         isRightMarked \<leftarrow> readField marked rightCell;
         Some (addPairPath lv isLeftMarked rv isRightMarked st)
       }
     }
   }"

text \<open>One row or column of \<open>getWinningPaths\<close>, after its cells are counted.\<close>

fun addLinePath ::
  "nat \<Rightarrow> cell_value list \<Rightarrow> cell_value list list \<times> nat \<Rightarrow> cell_value list list \<times> nat" where
  "addLinePath markedCount lineMissing (paths, bestMarkedCount) =
     (if markedCount > 0 then
        (let (paths1, best1) =
               (if markedCount > bestMarkedCount then ([], markedCount)
                else (paths, bestMarkedCount)) in
         if markedCount = best1 \<and> length lineMissing > 0 then (paths1 @ [lineMissing], best1)
         else (paths1, best1))
      else (paths, bestMarkedCount))"

definition getWinningPaths :: "BingoCard \<Rightarrow> WinningPattern \<Rightarrow> cell_value list list option" where
  "getWinningPaths bcard pattern =
     (if pattern_name pattern = ''Dikit'' then do {
        (paths, best) \<leftarrow> forEach [0..<5] (\<lambda>row. forEach [0..<4] (\<lambda>col st. do {
          leftCell \<leftarrow> cellAt bcard row col;
          rightCell \<leftarrow> cellAt bcard row (col + 1);
          pairPath leftCell rightCell st
        })) ([], 0);
        Some paths
      }
      else if pattern_name pattern = ''Patong'' then do {
        (paths, best) \<leftarrow> forEach [0..<4] (\<lambda>row. forEach [0..<5] (\<lambda>col st. do {
          topCell \<leftarrow> cellAt bcard row col;
          bottomCell \<leftarrow> cellAt bcard (row + 1) col;
          pairPath topCell bottomCell st
        })) ([], 0);
        Some paths
      }
      else if pattern_name pattern = ''Horizontal Line'' then do {
        (paths, best) \<leftarrow> forEach [0..<5] (\<lambda>row st. do {
          (markedCount, rowMissing) \<leftarrow> scanLine bcard (map (\<lambda>col. (row, col)) [0..<5]);
          Some (addLinePath markedCount rowMissing st)
        }) ([], 0);
        Some paths
      }
      else if pattern_name pattern = ''Vertical Line'' then do {
        (paths, best) \<leftarrow> forEach [0..<5] (\<lambda>col st. do {
          (markedCount, colMissing) \<leftarrow> scanLine bcard (map (\<lambda>row. (row, col)) [0..<5]);
          Some (addLinePath markedCount colMissing st)
        }) ([], 0);
        Some paths
      }
      else if pattern_name pattern = ''Diagonal Line'' then do {
        (mainMarkedCount, mainMissing) \<leftarrow> scanLine bcard (map (\<lambda>i. (i, i)) [0..<5]);
        (antiMarkedCount, antiMissing) \<leftarrow> scanLine bcard (map (\<lambda>i. (i, 4 - i)) [0..<5]);
        let bestDiagonalMarkedCount = max mainMarkedCount antiMarkedCount;
        Some (if bestDiagonalMarkedCount > 0 then
                (let paths1 = (if mainMarkedCount = bestDiagonalMarkedCount \<and> length mainMissing > 0
                               then [mainMissing] else []);
                     paths2 = (if antiMarkedCount = bestDiagonalMarkedCount \<and> length antiMissing > 0
                               then paths1 @ [antiMissing] else paths1)
                 in paths2)
              else [])
      }
      else do {
        missing \<leftarrow> standardMissing bcard pattern;
        Some (if length missing > 0 then [missing] else [])
      })"

section \<open>Waiting number analysis\<close>

text \<open>
  \<open>WaitingNumberAnalysis\<close>; its field \<open>isOnPot\<close> is named \<open>isOnPotFlag\<close> here, apart
  from the function \<open>isOnPot\<close>. The optional \<open>pathIndex\<close> is an option.
\<close>

record WaitingNumberAnalysis =
  cardId :: string
  patternId :: string
  patternName :: string
  isWinner :: bool
  isOnPotFlag :: bool
  missingNumbers :: "cell_value list"
  totalRequired :: int
  totalMarked :: int
  pathIndex :: "nat option"

record GameAnalysis =
  cardAnalyses :: "WaitingNumberAnalysis list"
  potCards :: "WaitingNumberAnalysis list"
  winningCards :: "WaitingNumberAnalysis list"
  nextNumbersToWatch :: "cell_value list"

text \<open>
  The counting loop \<open>if (pattern.grid[row][col]) totalRequired++\<close> over the 25 squares,
  from the value \<open>totalRequired\<close> has when the loop starts.
\<close>

definition countRequired :: "WinningPattern \<Rightarrow> int \<Rightarrow> int option" where
  "countRequired pattern start =
     forEach [0..<5] (\<lambda>row. forEach [0..<5] (\<lambda>col totalRequired. do {
       required \<leftarrow> gridAt pattern row col;
       Some (if required then totalRequired + 1 else totalRequired)
     })) start"

definition analyzeCardForPattern :: "BingoCard \<Rightarrow> WinningPattern \<Rightarrow> WaitingNumberAnalysis option" where
  "analyzeCardForPattern bcard pattern = do {
     won \<leftarrow> checkPattern bcard pattern;
     missing \<leftarrow> getMissingNumbers bcard pattern;
     onPot \<leftarrow> isOnPot bcard pattern;
     (required, markedTotal) \<leftarrow>
       (if pattern_name pattern = ''Dikit'' \<or> pattern_name pattern = ''Patong'' then
          Some (2, if length missing = 0 then 2 else if length missing = 1 then 1 else 1)
        else do {
          required \<leftarrow> countRequired pattern 2;
          Some (required, required - int (length missing))
        });
     Some \<lparr>cardId = card_id bcard, patternId = pattern_id pattern,
           patternName = pattern_name pattern, isWinner = won, isOnPotFlag = onPot,
           missingNumbers = missing, totalRequired = required, totalMarked = markedTotal,
           pathIndex = None\<rparr>
   }"

text \<open>
  The accumulators of \<open>analyzeGame\<close>: \<open>cardAnalyses\<close>, \<open>potCards\<close>, \<open>winningCards\<close> and
  the set \<open>nextNumbersSet\<close>.
\<close>

type_synonym analysis_state =
  "WaitingNumberAnalysis list \<times> WaitingNumberAnalysis list \<times> WaitingNumberAnalysis list \<times> cell_value list"

text \<open>
  One iteration of the loop over \<open>paths\<close> in \<open>analyzeGame\<close>, for the path \<open>pathMissing\<close>
  at index \<open>i\<close>; \<open>pathCount\<close> is \<open>paths.length\<close>.
\<close>

fun analyzePath ::
  "BingoCard \<Rightarrow> WinningPattern \<Rightarrow> nat \<Rightarrow> nat \<times> cell_value list \<Rightarrow> analysis_state
     \<Rightarrow> analysis_state option" where
  "analyzePath bcard pattern pathCount (i, pathMissing) (analyses, pots, winners, nextNumbersSet) =
     (if length pathMissing = 0 then Some (analyses, pots, winners, nextNumbersSet)
      else do {
        required \<leftarrow>
          (if pattern_name pattern = ''Horizontal Line'' \<or> pattern_name pattern = ''Vertical Line''
              \<or> pattern_name pattern = ''Diagonal Line'' then Some 5
           else if pattern_name pattern \<noteq> ''Dikit'' \<and> pattern_name pattern \<noteq> ''Patong''
           then countRequired pattern 0
           else Some 2);
        let markedTotal = required - int (length pathMissing);
        let onPot = (length pathMissing = 1);
        if markedTotal > 0 then
          (let analysis = \<lparr>cardId = card_id bcard, patternId = pattern_id pattern,
                 patternName = pattern_name pattern, isWinner = False, isOnPotFlag = onPot,
                 missingNumbers = pathMissing, totalRequired = required,
                 totalMarked = markedTotal,
                 pathIndex = (if pathCount > 1 then Some i else None)\<rparr>
           in Some (analyses @ [analysis],
                    if onPot then pots @ [analysis] else pots,
                    winners,
                    foldl setAdd nextNumbersSet pathMissing))
        else Some (analyses, pots, winners, nextNumbersSet)
      })"

text \<open>One (card, pattern) combination of \<open>analyzeGame\<close>.\<close>

fun analyzeCombination :: "BingoCard \<Rightarrow> WinningPattern \<Rightarrow> analysis_state \<Rightarrow> analysis_state option" where
  "analyzeCombination bcard pattern (analyses, pots, winners, nextNumbersSet) = do {
     won \<leftarrow> checkPattern bcard pattern;
     if won then do {
       analysis \<leftarrow> analyzeCardForPattern bcard pattern;
       Some (analyses @ [analysis], pots, winners @ [analysis], nextNumbersSet)
     }
     else do {
       paths \<leftarrow> getWinningPaths bcard pattern;
       forEach (enumerate 0 paths) (analyzePath bcard pattern (length paths))
         (analyses, pots, winners, nextNumbersSet)
     }
   }"

text \<open>
  The key of the final \<open>sort((a, b) => a - b)\<close>: the subtraction turns \<open>''\<close> into 0. No
  loop puts \<open>'FREE'\<close> into a path, so its key is never used.
\<close>

fun sortKey :: "cell_value \<Rightarrow> number" where
  "sortKey (Num n) = n"
| "sortKey Unset = 0"
| "sortKey FREE = 0"

definition analyzeGame :: "BingoCard list \<Rightarrow> WinningPattern list \<Rightarrow> GameAnalysis option" where
  "analyzeGame cards patterns = do {
     (analyses, pots, winners, nextNumbersSet) \<leftarrow>
       forEach cards (\<lambda>bcard. forEach patterns (\<lambda>pattern. analyzeCombination bcard pattern))
         ([], [], [], []);
     Some \<lparr>cardAnalyses = analyses, potCards = pots, winningCards = winners,
           nextNumbersToWatch = sort_key sortKey nextNumbersSet\<rparr>
   }"

section \<open>Marking a number (bingoGenerator.ts)\<close>

text \<open>
  \<open>markNumber\<close> works on a deep clone of the card (\<open>JSON.parse(JSON.stringify(card))\<close>,
  the same value in this model) and sets \<open>marked\<close> in every cell of the 5x5 scan whose
  value is the number.
\<close>

definition markNumber :: "BingoCard \<Rightarrow> number \<Rightarrow> BingoCard option" where
  "markNumber bcard n =
     forEach [0..<5] (\<lambda>row. forEach [0..<5] (\<lambda>col updatedCard. do {
       cell \<leftarrow> cellAt updatedCard row col;
       v \<leftarrow> readField cvalue cell;
       if v = Num n then
         (case cell of
            None \<Rightarrow> None
          | Some c \<Rightarrow> Some (updatedCard\<lparr>cells :=
              (cells updatedCard)[row := (cells updatedCard ! row)[col := c\<lparr>marked := True\<rparr>]]\<rparr>))
       else Some updatedCard
     })) bcard"

section \<open>Well-formed shapes and example data\<close>

text \<open>A card has exactly 5 rows of 5 cells, a pattern grid 5 rows of 5 flags.\<close>

definition wf_card :: "BingoCard \<Rightarrow> bool" where
  "wf_card bcard \<longleftrightarrow> length (cells bcard) = 5 \<and> list_all (\<lambda>row. length row = 5) (cells bcard)"

definition wf_grid :: "WinningPattern \<Rightarrow> bool" where
  "wf_grid pattern \<longleftrightarrow> length (grid pattern) = 5 \<and> list_all (\<lambda>row. length row = 5) (grid pattern)"

definition numCell :: "column \<Rightarrow> number \<Rightarrow> bool \<Rightarrow> BingoCell" where
  "numCell col n m = \<lparr>column = col, cvalue = Num n, marked = m\<rparr>"

definition freeCell :: "bool \<Rightarrow> BingoCell" where
  "freeCell m = \<lparr>column = ColN, cvalue = FREE, marked = m\<rparr>"

text \<open>
  A filled card: row \<open>r\<close> holds \<open>r + 1\<close>, \<open>r + 16\<close>, \<open>r + 31\<close>, \<open>r + 46\<close>, \<open>r + 61\<close>, the
  centre is the marked FREE space, and the cells at the positions \<open>ms\<close> are marked.
\<close>

definition exampleRow :: "(nat \<times> nat) list \<Rightarrow> nat \<Rightarrow> BingoCell list" where
  "exampleRow ms r =
     [numCell ColB (of_nat r + 1) ((r, 0) \<in> set ms),
      numCell ColI (of_nat r + 16) ((r, 1) \<in> set ms),
      (if r = 2 then freeCell True else numCell ColN (of_nat r + 31) ((r, 2) \<in> set ms)),
      numCell ColG (of_nat r + 46) ((r, 3) \<in> set ms),
      numCell ColO (of_nat r + 61) ((r, 4) \<in> set ms)]"

definition exampleCard :: "(nat \<times> nat) list \<Rightarrow> BingoCard" where
  "exampleCard ms = \<lparr>card_id = ''card_1'', card_name = Some ''Example'',
     cells = [exampleRow ms 0, exampleRow ms 1, exampleRow ms 2, exampleRow ms 3, exampleRow ms 4],
     card_createdAt = 0\<rparr>"

definition exampleSession :: GameSession where
  "exampleSession = \<lparr>activeCardIds = [''card_1''], activePatternIds = [''pattern_1''],
     calledNumbers = [3, 7], sessionStartTime = 0, isActive = True\<rparr>"

text \<open>
  The five reserved names with built-in semantics; a pattern of any other name is a
  standard pattern, matched by its grid.
\<close>

definition specialNames :: "string list" where
  "specialNames = [''Dikit'', ''Patong'', ''Horizontal Line'', ''Vertical Line'', ''Diagonal Line'']"

definition isStandard :: "WinningPattern \<Rightarrow> bool" where
  "isStandard pattern \<longleftrightarrow> pattern_name pattern \<notin> set specialNames"

text \<open>The 25 positions \<open>(row, col)\<close> in row-major scan order.\<close>

definition squares :: "(nat \<times> nat) list" where
  "squares = List.product [0..<5] [0..<5]"

text \<open>
  The single path of a standard pattern as the specification words it: the values of the
  cells where the grid is true that are unmarked and not FREE, in row-major scan order.
\<close>

definition requiredUnmarked :: "BingoCard \<Rightarrow> WinningPattern \<Rightarrow> cell_value list" where
  "requiredUnmarked bcard pattern =
     map (\<lambda>(row, col). cvalue (cells bcard ! row ! col))
       (filter (\<lambda>(row, col). grid pattern ! row ! col \<and> \<not> marked (cells bcard ! row ! col)
                  \<and> cvalue (cells bcard ! row ! col) \<noteq> FREE) squares)"

text \<open>
  The number of true cells of a pattern's grid, and the pattern-category rule for
  \<open>totalRequired\<close>: 2 for Dikit and Patong, 5 for the three line patterns, the number
  of true cells for a standard pattern.
\<close>

definition requiredCount :: "WinningPattern \<Rightarrow> nat" where
  "requiredCount pattern = length (filter (\<lambda>(row, col). grid pattern ! row ! col) squares)"

definition categoryRequired :: "WinningPattern \<Rightarrow> int" where
  "categoryRequired pattern =
     (if pattern_name pattern \<in> set [''Dikit'', ''Patong''] then 2
      else if pattern_name pattern \<in> set [''Horizontal Line'', ''Vertical Line'', ''Diagonal Line''] then 5
      else int (requiredCount pattern))"

text \<open>
  What the specification says of a per-path record of \<open>analyzeGame\<close> for a pattern:
  \<open>totalRequired\<close> follows the pattern-category rule and \<open>totalMarked\<close> is
  \<open>totalRequired\<close> less the number of missing numbers.
\<close>

definition pathRecordOk :: "WinningPattern \<Rightarrow> WaitingNumberAnalysis \<Rightarrow> bool" where
  "pathRecordOk pattern a \<longleftrightarrow>
     totalRequired a = categoryRequired pattern \<and>
     totalMarked a = totalRequired a - int (length (missingNumbers a))"

text \<open>
  What holds of a record of \<open>analyzeCardForPattern\<close> for a pattern: for Dikit and Patong
  \<open>totalRequired\<close> is 2 and \<open>totalMarked\<close> is 2 when nothing is missing and 1 otherwise;
  for the other patterns \<open>totalMarked\<close> is \<open>totalRequired\<close> less the number of missing
  numbers.
\<close>

definition cardRecordOk :: "WinningPattern \<Rightarrow> WaitingNumberAnalysis \<Rightarrow> bool" where
  "cardRecordOk pattern a \<longleftrightarrow>
     (if pattern_name pattern \<in> set [''Dikit'', ''Patong'']
      then totalRequired a = 2 \<and> totalMarked a = (if missingNumbers a = [] then 2 else 1)
      else totalMarked a = totalRequired a - int (length (missingNumbers a)))"

text \<open>
  A record of \<open>cardAnalyses\<close> that comes from the combination of a card and a pattern: it
  carries their identifiers and the pattern's name, and it is either the winner record,
  which is what \<open>analyzeCardForPattern\<close> returns, or a per-path record.
\<close>

definition recordFrom :: "BingoCard \<Rightarrow> WinningPattern \<Rightarrow> WaitingNumberAnalysis \<Rightarrow> bool" where
  "recordFrom bcard pattern a \<longleftrightarrow>
     cardId a = card_id bcard \<and> patternId a = pattern_id pattern \<and>
     patternName a = pattern_name pattern \<and>
     (if isWinner a then analyzeCardForPattern bcard pattern = Some a else pathRecordOk pattern a)"

text \<open>
  The pairs the specification gives to Dikit and Patong: the horizontally adjacent pairs
  \<open>(r, c), (r, c + 1)\<close> for \<open>c\<close> from 0 to 3, and the vertically adjacent pairs
  \<open>(r, c), (r + 1, c)\<close> for \<open>r\<close> from 0 to 3, in scan order, without the pairs that
  touch a cell whose value is FREE.
\<close>

definition dikitPairs :: "BingoCard \<Rightarrow> (BingoCell \<times> BingoCell) list" where
  "dikitPairs bcard =
     filter (\<lambda>(leftCell, rightCell). cvalue leftCell \<noteq> FREE \<and> cvalue rightCell \<noteq> FREE)
       (map (\<lambda>(row, col). (cells bcard ! row ! col, cells bcard ! row ! (col + 1)))
          (List.product [0..<5] [0..<4]))"

definition patongPairs :: "BingoCard \<Rightarrow> (BingoCell \<times> BingoCell) list" where
  "patongPairs bcard =
     filter (\<lambda>(topCell, bottomCell). cvalue topCell \<noteq> FREE \<and> cvalue bottomCell \<noteq> FREE)
       (map (\<lambda>(row, col). (cells bcard ! row ! col, cells bcard ! (row + 1) ! col))
          (List.product [0..<4] [0..<5]))"

text \<open>
  The marked count of a pair (0, 1 or 2), the best count of a list of pairs (the maximum
  over the pairs with a count above 0, and 0 when there is none), and the path of a pair:
  the values of its unmarked cells.
\<close>

fun markedCount :: "BingoCell \<times> BingoCell \<Rightarrow> nat" where
  "markedCount (a, b) = (if marked a then 1 else 0) + (if marked b then 1 else 0)"

definition bestMarkedCount :: "(BingoCell \<times> BingoCell) list \<Rightarrow> nat" where
  "bestMarkedCount pairs = Max (set (0 # map markedCount pairs))"

fun unmarkedValues :: "BingoCell \<times> BingoCell \<Rightarrow> cell_value list" where
  "unmarkedValues (a, b) = map cvalue (filter (\<lambda>cell. \<not> marked cell) [a, b])"

subsection \<open>Auxiliary definitions of the proofs\<close>

text \<open>The paths the specification expects from a list of pairs.\<close>

definition bestPairPaths :: "(BingoCell \<times> BingoCell) list \<Rightarrow> cell_value list list" where
  "bestPairPaths pairs =
     (if bestMarkedCount pairs = 2 then []
      else map unmarkedValues
             (filter (\<lambda>p. 0 < markedCount p \<and> markedCount p = bestMarkedCount pairs) pairs))"

text \<open>The step of the path loop on a pair of cells that are both there.\<close>

definition pathStep ::
  "cell_value list list \<times> nat \<Rightarrow> BingoCell \<times> BingoCell \<Rightarrow> cell_value list list \<times> nat" where
  "pathStep st p = addPairPath (cvalue (fst p)) (marked (fst p)) (cvalue (snd p)) (marked (snd p)) st"

text \<open>What \<open>markNumber\<close> does to one cell, and an update of one position of a grid.\<close>

definition markCell :: "number \<Rightarrow> BingoCell \<Rightarrow> BingoCell" where
  "markCell n cell = (if cvalue cell = Num n then cell\<lparr>marked := True\<rparr> else cell)"

definition updateAt :: "('a \<Rightarrow> 'a) \<Rightarrow> 'a list list \<Rightarrow> nat \<times> nat \<Rightarrow> 'a list list" where
  "updateAt f cs p = cs[fst p := (cs ! fst p)[snd p := f (cs ! fst p ! snd p)]]"

subsection \<open>More example data\<close>

text \<open>
  The example card as the manual card creator leaves its centre: \<open>createEmptyCard\<close>
  builds the FREE space with \<open>marked: false\<close>.
\<close>

definition manualCard :: "(nat \<times> nat) list \<Rightarrow> BingoCard" where
  "manualCard ms = (exampleCard ms)\<lparr>cells :=
     (cells (exampleCard ms))[2 := (cells (exampleCard ms) ! 2)[2 := freeCell False]]\<rparr>"

text \<open>Three of the predefined patterns, with the grids \<open>getPredefinedPatterns\<close> gives them.\<close>

definition fourCorners :: WinningPattern where
  "fourCorners = \<lparr>pattern_id = ''pattern_1'', pattern_name = ''Four Corners'',
     grid = [[True, False, False, False, True],
             [False, False, False, False, False],
             [False, False, False, False, False],
             [False, False, False, False, False],
             [True, False, False, False, True]],
     pattern_createdAt = 0\<rparr>"

definition xShape :: WinningPattern where
  "xShape = \<lparr>pattern_id = ''pattern_2'', pattern_name = ''X-Shape'',
     grid = [[True, False, False, False, True],
             [False, True, False, True, False],
             [False, False, True, False, False],
             [False, True, False, True, False],
             [True, False, False, False, True]],
     pattern_createdAt = 0\<rparr>"

definition dikit :: WinningPattern where
  "dikit = \<lparr>pattern_id = ''pattern_3'', pattern_name = ''Dikit'',
     grid = [[True, True, False, False, False],
             [False, False, False, False, False],
             [False, False, False, False, False],
             [False, False, False, False, False],
             [False, False, False, False, False]],
     pattern_createdAt = 0\<rparr>"

section \<open>The game session\<close>

lemma isValidBingoNumber_iff:
  "isValidBingoNumber n \<longleftrightarrow> (\<exists>k::int. n = of_int k \<and> 1 \<le> k \<and> k \<le> 75)"
proof
  assume v: "isValidBingoNumber n"
  then have "n = of_int \<lfloor>n\<rfloor>" "1 \<le> n" "n \<le> 75"
    unfolding isValidBingoNumber_def by (blast intro: sym)+
  moreover from this have "1 \<le> \<lfloor>n\<rfloor>" "\<lfloor>n\<rfloor> \<le> 75"
    by (simp_all add: le_floor_iff floor_le_iff)
  ultimately show "\<exists>k::int. n = of_int k \<and> 1 \<le> k \<and> k \<le> 75"
    by blast
next
  assume "\<exists>k::int. n = of_int k \<and> 1 \<le> k \<and> k \<le> 75"
  then obtain k :: int where "n = of_int k" "1 \<le> k" "k \<le> 75"
    by blast
  then show "isValidBingoNumber n"
    by (simp add: isValidBingoNumber_def)
qed

text \<open>
  C10. \<open>addCalledNumber(session, n)\<close> throws exactly when \<open>n\<close> is not an integer from 1
  to 75 or is already among the called numbers; otherwise it returns the session with
  \<open>n\<close> appended to \<open>calledNumbers\<close> and every other field as it was. The function is
  pure: the session passed in is the same value after the call, whether it throws or not.
\<close>

theorem addCalledNumber_throws_iff:
  "(isl (addCalledNumber session n) \<longleftrightarrow>
      \<not> (\<exists>k::int. n = of_int k \<and> 1 \<le> k \<and> k \<le> 75) \<or> n \<in> set (calledNumbers session)) \<and>
   (\<not> isl (addCalledNumber session n) \<longrightarrow>
      addCalledNumber session n = Inr (session\<lparr>calledNumbers := calledNumbers session @ [n]\<rparr>))"
  unfolding isValidBingoNumber_iff [symmetric]
  by (simp add: addCalledNumber_def)

theorem addCalledNumber_throws_iff_witness:
  "\<not> isl (addCalledNumber exampleSession 12) \<and>
   addCalledNumber exampleSession 12 = Inr (exampleSession\<lparr>calledNumbers := [3, 7, 12]\<rparr>) \<and>
   isl (addCalledNumber exampleSession 7) \<and> isl (addCalledNumber exampleSession (5 / 2)) \<and>
   isl (addCalledNumber exampleSession 76)"
proof -
  have "\<lfloor>5 / 2 :: number\<rfloor> = 2"
    by (simp add: floor_eq_iff)
  then show ?thesis
    using addCalledNumber_throws_iff [of exampleSession 12]
    by (simp add: addCalledNumber_def isValidBingoNumber_def exampleSession_def)
qed

text \<open>
  What \<open>applyCalledNumbersToCards\<close> does for any list of numbers: one card for each
  input card, in order, equal to it in every field but \<open>cells\<close>; the rows keep their
  lengths, every cell keeps its value and column, and a cell is marked iff its value is
  FREE or its value is a number other than the placeholder 0 that is in the list.
\<close>

lemma applyCalledNumbersToCards_cells:
  "length (applyCalledNumbersToCards cards called) = length cards \<and>
   (\<forall>i<length cards.
      applyCalledNumbersToCards cards called ! i =
        (cards ! i)\<lparr>cells := cells (applyCalledNumbersToCards cards called ! i)\<rparr> \<and>
      map length (cells (applyCalledNumbersToCards cards called ! i)) = map length (cells (cards ! i)) \<and>
      (\<forall>r<length (cells (cards ! i)). \<forall>c<length (cells (cards ! i) ! r).
         cvalue (cells (applyCalledNumbersToCards cards called ! i) ! r ! c) = cvalue (cells (cards ! i) ! r ! c) \<and>
         column (cells (applyCalledNumbersToCards cards called ! i) ! r ! c) = column (cells (cards ! i) ! r ! c) \<and>
         (marked (cells (applyCalledNumbersToCards cards called ! i) ! r ! c) \<longleftrightarrow>
            cvalue (cells (cards ! i) ! r ! c) = FREE \<or>
            (\<exists>n. cvalue (cells (cards ! i) ! r ! c) = Num n \<and> n \<noteq> 0 \<and> n \<in> set called))))"
  by (auto simp add: applyCalledNumbersToCards_def includesValue_def comp_def split: cell_value.splits)

text \<open>
  C6. For every list of cards and every list of called numbers (Bingo numbers: integers
  from 1 to 75), \<open>applyCalledNumbersToCards\<close> returns one card for each input card, in
  order, equal to it in every field but \<open>cells\<close>; the rows keep their lengths, every
  cell keeps its value and column, and a cell is marked iff its value is FREE or its
  value is in the called-number list. The function is pure, so the input cards are not
  changed.
\<close>

theorem applyCalledNumbersToCards_marks:
  assumes "\<forall>n\<in>set called. isValidBingoNumber n"
  shows "length (applyCalledNumbersToCards cards called) = length cards \<and>
   (\<forall>i<length cards.
      applyCalledNumbersToCards cards called ! i =
        (cards ! i)\<lparr>cells := cells (applyCalledNumbersToCards cards called ! i)\<rparr> \<and>
      map length (cells (applyCalledNumbersToCards cards called ! i)) = map length (cells (cards ! i)) \<and>
      (\<forall>r<length (cells (cards ! i)). \<forall>c<length (cells (cards ! i) ! r).
         cvalue (cells (applyCalledNumbersToCards cards called ! i) ! r ! c) = cvalue (cells (cards ! i) ! r ! c) \<and>
         column (cells (applyCalledNumbersToCards cards called ! i) ! r ! c) = column (cells (cards ! i) ! r ! c) \<and>
         (marked (cells (applyCalledNumbersToCards cards called ! i) ! r ! c) \<longleftrightarrow>
            cvalue (cells (cards ! i) ! r ! c) = FREE \<or>
            (\<exists>n. cvalue (cells (cards ! i) ! r ! c) = Num n \<and> n \<in> set called))))"
proof -
  have nonzero: "n \<noteq> 0" if "n \<in> set called" for n
    using assms that by (auto simp add: isValidBingoNumber_def)
  have "(\<exists>n. v = Num n \<and> n \<noteq> 0 \<and> n \<in> set called) \<longleftrightarrow> (\<exists>n. v = Num n \<and> n \<in> set called)" for v
    using nonzero by blast
  with applyCalledNumbersToCards_cells [of cards called] show ?thesis
    by simp
qed

theorem applyCalledNumbersToCards_marks_witness:
  "isValidBingoNumber 1 \<and> isValidBingoNumber 17 \<and>
   marked (cells (applyCalledNumbersToCards [exampleCard []] [1, 17] ! 0) ! 0 ! 0) \<and>
   marked (cells (applyCalledNumbersToCards [exampleCard []] [1, 17] ! 0) ! 1 ! 1) \<and>
   marked (cells (applyCalledNumbersToCards [exampleCard []] [1, 17] ! 0) ! 2 ! 2) \<and>
   \<not> marked (cells (applyCalledNumbersToCards [exampleCard []] [1, 17] ! 0) ! 0 ! 1) \<and>
   cvalue (cells (applyCalledNumbersToCards [exampleCard []] [1, 17] ! 0) ! 0 ! 1) = Num 16"
proof -
  have v: "\<forall>n\<in>set [1, 17 :: number]. isValidBingoNumber n"
    by (simp add: isValidBingoNumber_def)
  from applyCalledNumbersToCards_marks [OF v, of "[exampleCard []]"] v show ?thesis
    by (simp add: exampleCard_def exampleRow_def numCell_def freeCell_def)
qed

text \<open>
  C7. Applying the same called numbers a second time changes nothing: the cards, and so
  their marked flags cell for cell, are those of the first application.
\<close>

theorem applyCalledNumbersToCards_idempotent:
  "applyCalledNumbersToCards (applyCalledNumbersToCards cards nums) nums =
   applyCalledNumbersToCards cards nums"
  by (simp add: applyCalledNumbersToCards_def comp_def)

section \<open>Loops on well-formed inputs\<close>

text \<open>On a 5x5 card and a 5x5 grid no read inside the scan throws.\<close>

lemma cellAt_wf:
  "wf_card bcard \<Longrightarrow> row < 5 \<Longrightarrow> col < 5 \<Longrightarrow>
   cellAt bcard row col = Some (Some (cells bcard ! row ! col))"
  by (simp add: wf_card_def cellAt_def list_all_length)

lemma gridAt_wf:
  "wf_grid pattern \<Longrightarrow> row < 5 \<Longrightarrow> col < 5 \<Longrightarrow>
   gridAt pattern row col = Some (grid pattern ! row ! col)"
  by (simp add: wf_grid_def gridAt_def list_all_length)

lemma readField_Some [simp]: "readField f (Some c) = Some (f c)"
  by (simp add: readField_def)

text \<open>A loop whose iterations never throw is a fold.\<close>

lemma forEach_pure:
  "(\<And>x s. x \<in> set xs \<Longrightarrow> body x s = Some (f s x)) \<Longrightarrow> forEach xs body s = Some (foldl f s xs)"
  by (induction xs arbitrary: s) simp_all

lemma foldl_product:
  "foldl (\<lambda>s row. foldl (\<lambda>s col. g s (row, col)) s cols) s rows = foldl g s (List.product rows cols)"
  by (induction rows arbitrary: s) (simp_all add: foldl_map)

lemma forEach2_pure:
  assumes "\<And>row col s. row \<in> set rows \<Longrightarrow> col \<in> set cols \<Longrightarrow> body row col s = Some (g s (row, col))"
  shows "forEach rows (\<lambda>row. forEach cols (body row)) s = Some (foldl g s (List.product rows cols))"
proof -
  have inner: "forEach cols (body row) s' = Some (foldl (\<lambda>s col. g s (row, col)) s' cols)"
    if "row \<in> set rows" for row s'
    by (rule forEach_pure) (simp add: assms that)
  have "forEach rows (\<lambda>row. forEach cols (body row)) s =
        Some (foldl (\<lambda>s row. foldl (\<lambda>s col. g s (row, col)) s cols) s rows)"
    by (rule forEach_pure) (simp add: inner)
  then show ?thesis
    by (simp add: foldl_product)
qed

lemma forEach_invariant:
  assumes "\<And>x s. x \<in> set xs \<Longrightarrow> I s \<Longrightarrow> body x s = Some (f s x) \<and> I (f s x)"
    and "I s"
  shows "forEach xs body s = Some (foldl f s xs) \<and> I (foldl f s xs)"
  using assms by (induction xs arbitrary: s) simp_all

lemma forEach2_invariant:
  assumes step: "\<And>row col s. row \<in> set rows \<Longrightarrow> col \<in> set cols \<Longrightarrow> I s \<Longrightarrow>
             body row col s = Some (g s (row, col)) \<and> I (g s (row, col))"
    and init: "I s"
  shows "forEach rows (\<lambda>row. forEach cols (body row)) s = Some (foldl g s (List.product rows cols))"
proof -
  have inner: "forEach cols (body row) s' = Some (foldl (\<lambda>s col. g s (row, col)) s' cols)
        \<and> I (foldl (\<lambda>s col. g s (row, col)) s' cols)"
    if "row \<in> set rows" "I s'" for row s'
    by (rule forEach_invariant) (simp_all add: step that)
  have "forEach rows (\<lambda>row. forEach cols (body row)) s =
        Some (foldl (\<lambda>s row. foldl (\<lambda>s col. g s (row, col)) s cols) s rows)
        \<and> I (foldl (\<lambda>s row. foldl (\<lambda>s col. g s (row, col)) s cols) s rows)"
    by (rule forEach_invariant) (simp_all add: inner init)
  then show ?thesis
    by (simp add: foldl_product)
qed

lemma anyOf_pure:
  "(\<And>x. x \<in> set xs \<Longrightarrow> test x = Some (P x)) \<Longrightarrow> anyOf xs test = Some (\<exists>x\<in>set xs. P x)"
  by (induction xs) auto

lemma allOf_pure:
  "(\<And>x. x \<in> set xs \<Longrightarrow> test x = Some (P x)) \<Longrightarrow> allOf xs test = Some (\<forall>x\<in>set xs. P x)"
  by (induction xs) auto

lemma anyOf2_pure:
  assumes "\<And>row col. row \<in> set rows \<Longrightarrow> col \<in> set cols \<Longrightarrow> test row col = Some (P (row, col))"
  shows "anyOf rows (\<lambda>row. anyOf cols (test row)) = Some (\<exists>p\<in>set (List.product rows cols). P p)"
proof -
  have inner: "anyOf cols (test row) = Some (\<exists>col\<in>set cols. P (row, col))" if "row \<in> set rows" for row
    by (rule anyOf_pure) (simp add: assms that)
  have "anyOf rows (\<lambda>row. anyOf cols (test row)) = Some (\<exists>row\<in>set rows. \<exists>col\<in>set cols. P (row, col))"
    by (rule anyOf_pure) (simp add: inner)
  then show ?thesis
    by auto
qed

lemma allOf2_pure:
  assumes "\<And>row col. row \<in> set rows \<Longrightarrow> col \<in> set cols \<Longrightarrow> test row col = Some (P (row, col))"
  shows "allOf rows (\<lambda>row. allOf cols (test row)) = Some (\<forall>p\<in>set (List.product rows cols). P p)"
proof -
  have inner: "allOf cols (test row) = Some (\<forall>col\<in>set cols. P (row, col))" if "row \<in> set rows" for row
    by (rule allOf_pure) (simp add: assms that)
  have "allOf rows (\<lambda>row. allOf cols (test row)) = Some (\<forall>row\<in>set rows. \<forall>col\<in>set cols. P (row, col))"
    by (rule allOf_pure) (simp add: inner)
  then show ?thesis
    by auto
qed

lemma foldl_collect:
  "foldl (\<lambda>acc x. if P x then acc @ [h x] else acc) acc xs = acc @ map h (filter P xs)"
  by (induction xs arbitrary: acc) simp_all

lemma foldl_skip:
  "foldl (\<lambda>s x. if Q (h x) then f s (h x) else s) s xs = foldl f s (filter Q (map h xs))"
  by (induction xs arbitrary: s) simp_all

lemma ex_filter_map:
  "(\<exists>x\<in>set xs. Q (h x) \<and> R (h x)) \<longleftrightarrow> (\<exists>p\<in>set (filter Q (map h xs)). R p)"
  by auto

section \<open>Standard patterns\<close>

lemma standardMissing_wf:
  assumes "wf_card bcard" "wf_grid pattern"
  shows "standardMissing bcard pattern = Some (requiredUnmarked bcard pattern)"
proof -
  let ?P = "\<lambda>(row, col). grid pattern ! row ! col \<and> \<not> marked (cells bcard ! row ! col)
                  \<and> cvalue (cells bcard ! row ! col) \<noteq> FREE"
  let ?h = "\<lambda>(row, col). cvalue (cells bcard ! row ! col)"
  have "standardMissing bcard pattern = Some (foldl (\<lambda>acc p. if ?P p then acc @ [?h p] else acc) [] squares)"
    unfolding standardMissing_def squares_def
    by (rule forEach2_pure) (simp add: cellAt_wf gridAt_wf assms)
  then show ?thesis
    by (simp only: foldl_collect requiredUnmarked_def append_Nil)
qed

lemma checkPattern_standard_wf:
  assumes "wf_card bcard" "wf_grid pattern" "isStandard pattern"
  shows "checkPattern bcard pattern =
         Some (\<forall>(row, col)\<in>set squares. grid pattern ! row ! col \<longrightarrow> marked (cells bcard ! row ! col))"
proof -
  have "checkPattern bcard pattern =
     allOf [0..<5] (\<lambda>row. allOf [0..<5] (\<lambda>col. do {
          required \<leftarrow> gridAt pattern row col;
          if required then do {
            cell \<leftarrow> cellAt bcard row col;
            readField marked cell
          }
          else Some True
        }))"
    using assms(3) by (simp add: checkPattern_def isStandard_def specialNames_def)
  also have "\<dots> = Some (\<forall>p\<in>set squares. case p of (row, col) \<Rightarrow> grid pattern ! row ! col \<longrightarrow> marked (cells bcard ! row ! col))"
    unfolding squares_def
    by (rule allOf2_pure) (simp add: cellAt_wf gridAt_wf assms)
  finally show ?thesis .
qed

text \<open>
  C3, as amended. For every 5x5 card and every standard pattern with a 5x5 grid,
  \<open>getWinningPaths\<close> returns exactly one path, the list of the values of the required
  cells that are unmarked and not FREE in row-major scan order, when that list is not
  empty, and no path when it is empty. When the list is empty and every required cell
  whose value is FREE is marked, the card is won with zero missing numbers.
\<close>

theorem getWinningPaths_standard:
  assumes "wf_card bcard" "wf_grid pattern" "isStandard pattern"
  shows "getWinningPaths bcard pattern =
           Some (if requiredUnmarked bcard pattern = [] then [] else [requiredUnmarked bcard pattern]) \<and>
         (requiredUnmarked bcard pattern = [] \<and>
          (\<forall>row<5. \<forall>col<5. grid pattern ! row ! col \<and> cvalue (cells bcard ! row ! col) = FREE
               \<longrightarrow> marked (cells bcard ! row ! col)) \<longrightarrow>
            checkPattern bcard pattern = Some True \<and> getMissingNumbers bcard pattern = Some [])"
proof -
  have paths: "getWinningPaths bcard pattern =
           Some (if requiredUnmarked bcard pattern = [] then [] else [requiredUnmarked bcard pattern])"
    using assms(3) by (simp add: getWinningPaths_def isStandard_def specialNames_def standardMissing_wf assms(1,2))
  have missing: "getMissingNumbers bcard pattern = Some (requiredUnmarked bcard pattern)"
    using assms(3) by (simp add: getMissingNumbers_def isStandard_def specialNames_def standardMissing_wf assms(1,2))
  have won: "checkPattern bcard pattern = Some True"
    if "requiredUnmarked bcard pattern = []"
      and "\<forall>row<5. \<forall>col<5. grid pattern ! row ! col \<and> cvalue (cells bcard ! row ! col) = FREE
               \<longrightarrow> marked (cells bcard ! row ! col)"
    using that unfolding checkPattern_standard_wf [OF assms] requiredUnmarked_def squares_def
    by (simp add: filter_empty_conv Ball_def) blast
  from paths missing won show ?thesis
    by simp
qed

theorem getWinningPaths_standard_witness:
  "wf_card (exampleCard [(0, 0), (0, 4), (4, 0)]) \<and> wf_grid fourCorners \<and> isStandard fourCorners \<and>
   getWinningPaths (exampleCard [(0, 0), (0, 4), (4, 0)]) fourCorners = Some [[Num 65]] \<and>
   getWinningPaths (exampleCard [(0, 0), (0, 4), (4, 0), (4, 4)]) fourCorners = Some [] \<and>
   checkPattern (exampleCard [(0, 0), (0, 4), (4, 0), (4, 4)]) fourCorners = Some True \<and>
   getMissingNumbers (exampleCard [(0, 0), (0, 4), (4, 0), (4, 4)]) fourCorners = Some []"
proof -
  let ?c = "exampleCard [(0, 0), (0, 4), (4, 0)]"
  let ?d = "exampleCard [(0, 0), (0, 4), (4, 0), (4, 4)]"
  have h: "wf_card ?c" "wf_grid fourCorners" "isStandard fourCorners"
    by code_simp+
  have k: "wf_card ?d"
    by code_simp
  have r: "requiredUnmarked ?c fourCorners = [Num 65]" "requiredUnmarked ?d fourCorners = []"
    by code_simp+
  have f: "\<forall>row<5. \<forall>col<5. grid fourCorners ! row ! col \<and> cvalue (cells ?d ! row ! col) = FREE
            \<longrightarrow> marked (cells ?d ! row ! col)"
    by (simp add: All_less_Suc2 numeral_nat fourCorners_def exampleCard_def exampleRow_def numCell_def)
  from getWinningPaths_standard [OF h] getWinningPaths_standard [OF k h(2,3)] r f h show ?thesis
    by simp
qed

text \<open>
  C3 as stated fails on a card made by hand, whose FREE centre is unmarked, when both
  diagonals are otherwise marked and the pattern is X-Shape: the list is empty, no path
  is returned instead of one, and the card is not won.
\<close>

theorem getWinningPaths_standard_counterexample:
  "wf_card (manualCard [(0, 0), (1, 1), (3, 3), (4, 4), (0, 4), (1, 3), (3, 1), (4, 0)]) \<and>
   wf_grid xShape \<and> isStandard xShape \<and>
   requiredUnmarked (manualCard [(0, 0), (1, 1), (3, 3), (4, 4), (0, 4), (1, 3), (3, 1), (4, 0)]) xShape = [] \<and>
   getWinningPaths (manualCard [(0, 0), (1, 1), (3, 3), (4, 4), (0, 4), (1, 3), (3, 1), (4, 0)]) xShape = Some [] \<and>
   checkPattern (manualCard [(0, 0), (1, 1), (3, 3), (4, 4), (0, 4), (1, 3), (3, 1), (4, 0)]) xShape = Some False"
  by code_simp

text \<open>
  C4. For every 5x5 card whose centre cell (row 2, col 2) has value FREE and is marked,
  the centre being the only FREE cell of a card, and every standard pattern with a 5x5
  grid, \<open>checkPattern\<close> returns true iff \<open>getMissingNumbers\<close> returns the empty list;
  both return a result.
\<close>

theorem checkPattern_iff_no_missing:
  assumes "wf_card bcard" "wf_grid pattern" "isStandard pattern"
    and "cvalue (cells bcard ! 2 ! 2) = FREE" "marked (cells bcard ! 2 ! 2)"
    and "\<forall>row<5. \<forall>col<5. (row, col) \<noteq> (2, 2) \<longrightarrow> cvalue (cells bcard ! row ! col) \<noteq> FREE"
  shows "(checkPattern bcard pattern = Some True \<longleftrightarrow> getMissingNumbers bcard pattern = Some []) \<and>
         checkPattern bcard pattern \<noteq> None \<and> getMissingNumbers bcard pattern \<noteq> None"
proof -
  have missing: "getMissingNumbers bcard pattern = Some (requiredUnmarked bcard pattern)"
    using assms(3) by (simp add: getMissingNumbers_def isStandard_def specialNames_def standardMissing_wf assms(1,2))
  have free: "marked (cells bcard ! row ! col)"
    if "row < 5" "col < 5" "cvalue (cells bcard ! row ! col) = FREE" for row col
    using that assms(4-6) by (cases "(row, col) = (2, 2)") auto
  have "(\<forall>(row, col)\<in>set squares. grid pattern ! row ! col \<longrightarrow> marked (cells bcard ! row ! col))
        \<longleftrightarrow> requiredUnmarked bcard pattern = []"
    unfolding requiredUnmarked_def squares_def
    using free by (simp add: filter_empty_conv Ball_def) blast
  then show ?thesis
    unfolding checkPattern_standard_wf [OF assms(1-3)] missing by simp
qed

theorem checkPattern_iff_no_missing_witness:
  "wf_card (exampleCard [(0, 0), (0, 4), (4, 0), (4, 4)]) \<and> wf_grid fourCorners \<and> isStandard fourCorners \<and>
   cvalue (cells (exampleCard [(0, 0), (0, 4), (4, 0), (4, 4)]) ! 2 ! 2) = FREE \<and>
   marked (cells (exampleCard [(0, 0), (0, 4), (4, 0), (4, 4)]) ! 2 ! 2) \<and>
   checkPattern (exampleCard [(0, 0), (0, 4), (4, 0), (4, 4)]) fourCorners = Some True \<and>
   getMissingNumbers (exampleCard [(0, 0), (0, 4), (4, 0), (4, 4)]) fourCorners = Some [] \<and>
   checkPattern (exampleCard [(0, 0), (0, 4), (4, 0)]) fourCorners = Some False \<and>
   getMissingNumbers (exampleCard [(0, 0), (0, 4), (4, 0)]) fourCorners = Some [Num 65]"
proof -
  let ?c = "exampleCard [(0, 0), (0, 4), (4, 0), (4, 4)]"
  let ?d = "exampleCard [(0, 0), (0, 4), (4, 0)]"
  have h: "wf_card ?c" "wf_grid fourCorners" "isStandard fourCorners"
    "cvalue (cells ?c ! 2 ! 2) = FREE" "marked (cells ?c ! 2 ! 2)"
    by code_simp+
  have f: "\<forall>row<5. \<forall>col<5. (row, col) \<noteq> (2, 2) \<longrightarrow> cvalue (cells ?c ! row ! col) \<noteq> FREE"
    by (simp add: All_less_Suc2 numeral_nat exampleCard_def exampleRow_def numCell_def)
  have k: "wf_card ?d" "cvalue (cells ?d ! 2 ! 2) = FREE" "marked (cells ?d ! 2 ! 2)"
    by code_simp+
  have g: "\<forall>row<5. \<forall>col<5. (row, col) \<noteq> (2, 2) \<longrightarrow> cvalue (cells ?d ! row ! col) \<noteq> FREE"
    by (simp add: All_less_Suc2 numeral_nat exampleCard_def exampleRow_def numCell_def)
  have m: "getMissingNumbers ?c fourCorners = Some []"
    "getMissingNumbers ?d fourCorners = Some [Num 65]"
    by code_simp+
  have n: "checkPattern ?d fourCorners = Some False"
    by code_simp
  from checkPattern_iff_no_missing [OF h f] checkPattern_iff_no_missing [OF k(1) h(2,3) k(2,3) g] m n h
  show ?thesis
    by simp
qed

section \<open>Dikit and Patong\<close>

lemma markedCount_le: "markedCount p \<le> 2"
  by (cases p) simp

lemma bestMarkedCount_Nil [simp]: "bestMarkedCount [] = 0"
  by (simp add: bestMarkedCount_def)

lemma bestMarkedCount_snoc [simp]:
  "bestMarkedCount (ps @ [p]) = max (bestMarkedCount ps) (markedCount p)"
proof -
  have "set (0 # map markedCount (ps @ [p])) = insert (markedCount p) (set (0 # map markedCount ps))"
    by auto
  then show ?thesis
    unfolding bestMarkedCount_def by (simp only: Max_insert [OF List.finite_set] max.commute) simp
qed

lemma markedCount_le_best: "p \<in> set ps \<Longrightarrow> markedCount p \<le> bestMarkedCount ps"
  unfolding bestMarkedCount_def by (intro Max_ge) auto

lemma bestMarkedCount_le: "bestMarkedCount ps \<le> 2"
  by (induction ps rule: rev_induct) (simp_all add: markedCount_le)

lemma bestMarkedCount_eq_2: "bestMarkedCount ps = 2 \<longleftrightarrow> (\<exists>p\<in>set ps. markedCount p = 2)"
proof (induction ps rule: rev_induct)
  case Nil
  then show ?case by simp
next
  case (snoc p ps)
  have "markedCount p \<le> 2" "bestMarkedCount ps \<le> 2"
    by (rule markedCount_le, rule bestMarkedCount_le)
  with snoc show ?case
    by (auto simp add: max_def)
qed

lemma no_better_pair:
  "bestMarkedCount ps = 0 \<Longrightarrow> filter (\<lambda>q. 0 < markedCount q \<and> markedCount q = k) ps = []"
  using markedCount_le_best [of _ ps] by (fastforce simp add: filter_empty_conv)

text \<open>The path loop keeps the paths of the pairs that tie at the best count.\<close>

lemma foldl_pathStep: "foldl pathStep ([], 0) ps = (bestPairPaths ps, bestMarkedCount ps)"
proof (induction ps rule: rev_induct)
  case Nil
  then show ?case by (simp add: bestPairPaths_def)
next
  case (snoc p ps)
  obtain a b where p: "p = (a, b)" by (cases p)
  have le: "bestMarkedCount ps \<le> 2" by (rule bestMarkedCount_le)
  consider "bestMarkedCount ps = 0" | "bestMarkedCount ps = 1" | "bestMarkedCount ps = 2"
    using le by linarith
  then show ?case
  proof cases
    case 1
    then show ?thesis
      using snoc no_better_pair [OF 1]
      by (simp add: p pathStep_def bestPairPaths_def)
  next
    case 2
    then show ?thesis
      using snoc by (simp add: p pathStep_def bestPairPaths_def)
  next
    case 3
    then show ?thesis
      using snoc by (simp add: p pathStep_def bestPairPaths_def)
  qed
qed

lemma pairPath_defined:
  "pairPath (Some a) (Some b) st =
     Some (if cvalue a \<noteq> FREE \<and> cvalue b \<noteq> FREE then pathStep st (a, b) else st)"
  by (simp add: pairPath_def pathStep_def)

lemma pairComplete_defined:
  "pairComplete (Some a) (Some b) =
     Some (cvalue a \<noteq> FREE \<and> cvalue b \<noteq> FREE \<and> markedCount (a, b) = 2)"
  by (simp add: pairComplete_def)

lemma getWinningPaths_Dikit:
  assumes "wf_card bcard" "pattern_name pattern = ''Dikit''"
  shows "getWinningPaths bcard pattern = Some (bestPairPaths (dikitPairs bcard))"
proof -
  let ?h = "\<lambda>(row, col). (cells bcard ! row ! col, cells bcard ! row ! (col + 1))"
  let ?Q = "\<lambda>(a, b). cvalue a \<noteq> FREE \<and> cvalue b \<noteq> FREE"
  have "forEach [0..<5] (\<lambda>row. forEach [0..<4] (\<lambda>col st. do {
          leftCell \<leftarrow> cellAt bcard row col;
          rightCell \<leftarrow> cellAt bcard row (col + 1);
          pairPath leftCell rightCell st
        })) ([], 0)
      = Some (foldl (\<lambda>s x. if ?Q (?h x) then pathStep s (?h x) else s) ([], 0) (List.product [0..<5] [0..<4]))"
    by (rule forEach2_pure) (simp add: cellAt_wf assms(1) pairPath_defined)
  also have "foldl (\<lambda>s x. if ?Q (?h x) then pathStep s (?h x) else s) ([], 0) (List.product [0..<5] [0..<4])
      = foldl pathStep ([], 0) (dikitPairs bcard)"
    unfolding dikitPairs_def by (rule foldl_skip)
  finally have loop: "forEach [0..<5] (\<lambda>row. forEach [0..<4] (\<lambda>col st. do {
          leftCell \<leftarrow> cellAt bcard row col;
          rightCell \<leftarrow> cellAt bcard row (col + 1);
          pairPath leftCell rightCell st
        })) ([], 0) = Some (bestPairPaths (dikitPairs bcard), bestMarkedCount (dikitPairs bcard))"
    by (simp only: foldl_pathStep)
  show ?thesis
    unfolding getWinningPaths_def loop by (simp add: assms(2))
qed

lemma getWinningPaths_Patong:
  assumes "wf_card bcard" "pattern_name pattern = ''Patong''"
  shows "getWinningPaths bcard pattern = Some (bestPairPaths (patongPairs bcard))"
proof -
  let ?h = "\<lambda>(row, col). (cells bcard ! row ! col, cells bcard ! (row + 1) ! col)"
  let ?Q = "\<lambda>(a, b). cvalue a \<noteq> FREE \<and> cvalue b \<noteq> FREE"
  have "forEach [0..<4] (\<lambda>row. forEach [0..<5] (\<lambda>col st. do {
          topCell \<leftarrow> cellAt bcard row col;
          bottomCell \<leftarrow> cellAt bcard (row + 1) col;
          pairPath topCell bottomCell st
        })) ([], 0)
      = Some (foldl (\<lambda>s x. if ?Q (?h x) then pathStep s (?h x) else s) ([], 0) (List.product [0..<4] [0..<5]))"
    by (rule forEach2_pure) (simp add: cellAt_wf assms(1) pairPath_defined)
  also have "foldl (\<lambda>s x. if ?Q (?h x) then pathStep s (?h x) else s) ([], 0) (List.product [0..<4] [0..<5])
      = foldl pathStep ([], 0) (patongPairs bcard)"
    unfolding patongPairs_def by (rule foldl_skip)
  finally have loop: "forEach [0..<4] (\<lambda>row. forEach [0..<5] (\<lambda>col st. do {
          topCell \<leftarrow> cellAt bcard row col;
          bottomCell \<leftarrow> cellAt bcard (row + 1) col;
          pairPath topCell bottomCell st
        })) ([], 0) = Some (bestPairPaths (patongPairs bcard), bestMarkedCount (patongPairs bcard))"
    by (simp only: foldl_pathStep)
  show ?thesis
    unfolding getWinningPaths_def loop by (simp add: assms(2))
qed

lemma checkPattern_Dikit:
  assumes "wf_card bcard" "pattern_name pattern = ''Dikit''"
  shows "checkPattern bcard pattern = Some (bestMarkedCount (dikitPairs bcard) = 2)"
proof -
  let ?h = "\<lambda>(row, col). (cells bcard ! row ! col, cells bcard ! row ! (col + 1))"
  let ?Q = "\<lambda>(a, b). cvalue a \<noteq> FREE \<and> cvalue b \<noteq> FREE"
  have "anyOf [0..<5] (\<lambda>row. anyOf [0..<4] (\<lambda>col. do {
          leftCell \<leftarrow> cellAt bcard row col;
          rightCell \<leftarrow> cellAt bcard row (col + 1);
          pairComplete leftCell rightCell
        }))
      = Some (\<exists>x\<in>set (List.product [0..<5] [0..<4]). ?Q (?h x) \<and> markedCount (?h x) = 2)"
    by (rule anyOf2_pure) (simp add: cellAt_wf assms(1) pairComplete_defined)
  moreover have "(\<exists>x\<in>set (List.product [0..<5] [0..<4]). ?Q (?h x) \<and> markedCount (?h x) = 2)
      \<longleftrightarrow> (\<exists>p\<in>set (dikitPairs bcard). markedCount p = 2)"
    unfolding dikitPairs_def by (rule ex_filter_map)
  ultimately have loop: "anyOf [0..<5] (\<lambda>row. anyOf [0..<4] (\<lambda>col. do {
          leftCell \<leftarrow> cellAt bcard row col;
          rightCell \<leftarrow> cellAt bcard row (col + 1);
          pairComplete leftCell rightCell
        })) = Some (bestMarkedCount (dikitPairs bcard) = 2)"
    by (simp only: bestMarkedCount_eq_2)
  show ?thesis
    unfolding checkPattern_def loop by (simp add: assms(2))
qed

lemma checkPattern_Patong:
  assumes "wf_card bcard" "pattern_name pattern = ''Patong''"
  shows "checkPattern bcard pattern = Some (bestMarkedCount (patongPairs bcard) = 2)"
proof -
  let ?h = "\<lambda>(row, col). (cells bcard ! row ! col, cells bcard ! (row + 1) ! col)"
  let ?Q = "\<lambda>(a, b). cvalue a \<noteq> FREE \<and> cvalue b \<noteq> FREE"
  have "anyOf [0..<4] (\<lambda>row. anyOf [0..<5] (\<lambda>col. do {
          topCell \<leftarrow> cellAt bcard row col;
          bottomCell \<leftarrow> cellAt bcard (row + 1) col;
          pairComplete topCell bottomCell
        }))
      = Some (\<exists>x\<in>set (List.product [0..<4] [0..<5]). ?Q (?h x) \<and> markedCount (?h x) = 2)"
    by (rule anyOf2_pure) (simp add: cellAt_wf assms(1) pairComplete_defined)
  moreover have "(\<exists>x\<in>set (List.product [0..<4] [0..<5]). ?Q (?h x) \<and> markedCount (?h x) = 2)
      \<longleftrightarrow> (\<exists>p\<in>set (patongPairs bcard). markedCount p = 2)"
    unfolding patongPairs_def by (rule ex_filter_map)
  ultimately have loop: "anyOf [0..<4] (\<lambda>row. anyOf [0..<5] (\<lambda>col. do {
          topCell \<leftarrow> cellAt bcard row col;
          bottomCell \<leftarrow> cellAt bcard (row + 1) col;
          pairComplete topCell bottomCell
        })) = Some (bestMarkedCount (patongPairs bcard) = 2)"
    by (simp only: bestMarkedCount_eq_2)
  show ?thesis
    unfolding checkPattern_def loop by (simp add: assms(2))
qed

text \<open>
  C2. For every 5x5 card and a pattern named Dikit (horizontally adjacent pairs) or
  Patong (vertically adjacent pairs), only the pairs that do not touch a FREE cell
  count. With \<open>best\<close> the maximum marked count over the pairs with a count above 0, the
  card wins iff \<open>best = 2\<close>; otherwise \<open>getWinningPaths\<close> returns, in scan order, one
  path for each pair whose count is above 0 and equals \<open>best\<close>, the path being the
  values of the unmarked cells of the pair. A won card has no path.
\<close>

theorem adjacent_pair_paths:
  assumes "wf_card bcard"
    and "pattern_name pattern = ''Dikit'' \<or> pattern_name pattern = ''Patong''"
  shows "let pairs = (if pattern_name pattern = ''Dikit'' then dikitPairs bcard else patongPairs bcard);
             best = bestMarkedCount pairs
         in checkPattern bcard pattern = Some (best = 2) \<and>
            getWinningPaths bcard pattern =
              Some (if best = 2 then []
                    else map unmarkedValues
                           (filter (\<lambda>p. 0 < markedCount p \<and> markedCount p = best) pairs))"
  using assms
  by (auto simp add: Let_def checkPattern_Dikit checkPattern_Patong getWinningPaths_Dikit
      getWinningPaths_Patong bestPairPaths_def)

theorem adjacent_pair_paths_witness:
  "wf_card (exampleCard [(0, 1)]) \<and> pattern_name dikit = ''Dikit'' \<and>
   bestMarkedCount (dikitPairs (exampleCard [(0, 1)])) = 1 \<and>
   checkPattern (exampleCard [(0, 1)]) dikit = Some False \<and>
   getWinningPaths (exampleCard [(0, 1)]) dikit = Some [[Num 1], [Num 31]]"
proof -
  let ?c = "exampleCard [(0, 1)]"
  have h: "wf_card ?c" "pattern_name dikit = ''Dikit'' \<or> pattern_name dikit = ''Patong''"
    by code_simp+
  have n: "pattern_name dikit = ''Dikit''"
    by code_simp
  have b: "bestMarkedCount (dikitPairs ?c) = 1"
    by code_simp
  have p: "map unmarkedValues (filter (\<lambda>p. 0 < markedCount p \<and> markedCount p = 1) (dikitPairs ?c))
           = [[Num 1], [Num 31]]"
    by code_simp
  from adjacent_pair_paths [OF h] n b p h(1) show ?thesis
    by (simp add: Let_def)
qed

section \<open>Marking a number\<close>

lemma length_updateAt [simp]: "length (updateAt f cs p) = length cs"
  by (simp add: updateAt_def)

lemma length_nth_updateAt [simp]: "length (updateAt f cs p ! r) = length (cs ! r)"
  by (cases "fst p < length cs") (simp_all add: updateAt_def nth_list_update list_update_beyond)

lemma nth_updateAt:
  "r < length cs \<Longrightarrow> c < length (cs ! r) \<Longrightarrow>
   updateAt f cs p ! r ! c = (if p = (r, c) then f (cs ! r ! c) else cs ! r ! c)"
  by (cases p; cases "fst p = r") (auto simp add: updateAt_def nth_list_update)

lemma foldl_updateAt:
  assumes "\<And>x. f (f x) = f x"
  shows "length (foldl (updateAt f) cs ps) = length cs \<and>
         (\<forall>r. length (foldl (updateAt f) cs ps ! r) = length (cs ! r)) \<and>
         (\<forall>r<length cs. \<forall>c<length (cs ! r).
            foldl (updateAt f) cs ps ! r ! c = (if (r, c) \<in> set ps then f (cs ! r ! c) else cs ! r ! c))"
proof (induction ps rule: rev_induct)
  case Nil
  then show ?case by simp
next
  case (snoc p ps)
  then show ?case
    by (simp add: nth_updateAt assms)
qed

lemma markCell_idem: "markCell n (markCell n cell) = markCell n cell"
  by (simp add: markCell_def)

lemma markNumber_step:
  assumes "wf_card uc" "row < 5" "col < 5"
  shows "(do {
       cell \<leftarrow> cellAt uc row col;
       v \<leftarrow> readField cvalue cell;
       if v = Num n then
         (case cell of
            None \<Rightarrow> None
          | Some c \<Rightarrow> Some (uc\<lparr>cells :=
              (cells uc)[row := (cells uc ! row)[col := c\<lparr>marked := True\<rparr>]]\<rparr>))
       else Some uc
     }) = Some (uc\<lparr>cells := updateAt (markCell n) (cells uc) (row, col)\<rparr>)"
  using assms by (simp add: cellAt_wf updateAt_def markCell_def)

lemma wf_card_updateAt:
  "wf_card uc \<Longrightarrow> wf_card (uc\<lparr>cells := updateAt f (cells uc) p\<rparr>)"
  by (simp add: wf_card_def list_all_length)

lemma foldl_cells:
  "foldl (\<lambda>uc p. uc\<lparr>cells := updateAt f (cells uc) p\<rparr>) uc ps = uc\<lparr>cells := foldl (updateAt f) (cells uc) ps\<rparr>"
  by (induction ps arbitrary: uc) simp_all

lemma markNumber_wf:
  assumes "wf_card bcard"
  shows "markNumber bcard n = Some (bcard\<lparr>cells := foldl (updateAt (markCell n)) (cells bcard) squares\<rparr>)"
proof -
  have "markNumber bcard n =
        Some (foldl (\<lambda>uc p. uc\<lparr>cells := updateAt (markCell n) (cells uc) p\<rparr>) bcard (List.product [0..<5] [0..<5]))"
    unfolding markNumber_def
    by (rule forEach2_invariant [where I = wf_card]) (simp_all add: markNumber_step wf_card_updateAt assms)
  then show ?thesis
    by (simp add: foldl_cells squares_def)
qed

text \<open>
  C8. For every 5x5 card and every number \<open>n\<close>, \<open>markNumber\<close> returns a card, again
  5x5 and equal to the input in every field but \<open>cells\<close>, in which every cell keeps
  its value and column, every cell whose value is \<open>n\<close> is marked and every other cell
  keeps its marked flag; when \<open>n\<close> is nowhere on the card the result equals the input.
  The function is pure, so the input card is not changed.
\<close>

theorem markNumber_marks:
  assumes "wf_card bcard"
  shows "case markNumber bcard n of
           None \<Rightarrow> False
         | Some updated \<Rightarrow>
             wf_card updated \<and> updated = bcard\<lparr>cells := cells updated\<rparr> \<and>
             (\<forall>row<5. \<forall>col<5.
                cvalue (cells updated ! row ! col) = cvalue (cells bcard ! row ! col) \<and>
                column (cells updated ! row ! col) = column (cells bcard ! row ! col) \<and>
                (marked (cells updated ! row ! col) \<longleftrightarrow>
                   cvalue (cells bcard ! row ! col) = Num n \<or> marked (cells bcard ! row ! col))) \<and>
             ((\<forall>row<5. \<forall>col<5. cvalue (cells bcard ! row ! col) \<noteq> Num n) \<longrightarrow> updated = bcard)"
proof -
  let ?cs = "foldl (updateAt (markCell n)) (cells bcard) squares"
  have len: "length (cells bcard) = 5" and lens: "\<And>r. r < 5 \<Longrightarrow> length (cells bcard ! r) = 5"
    using assms by (simp_all add: wf_card_def list_all_length)
  have fold: "length ?cs = length (cells bcard)" "\<And>r. length (?cs ! r) = length (cells bcard ! r)"
    "\<And>r c. r < length (cells bcard) \<Longrightarrow> c < length (cells bcard ! r) \<Longrightarrow>
       ?cs ! r ! c = (if (r, c) \<in> set squares then markCell n (cells bcard ! r ! c) else cells bcard ! r ! c)"
    using foldl_updateAt [of "markCell n" "cells bcard" squares, OF markCell_idem] by blast+
  have cell: "?cs ! r ! c = markCell n (cells bcard ! r ! c)" if "r < 5" "c < 5" for r c
    using that fold(3) [of r c] by (simp add: len lens squares_def)
  have wf: "wf_card (bcard\<lparr>cells := ?cs\<rparr>)"
    using assms fold(1,2) by (simp add: wf_card_def list_all_length)
  have same: "?cs = cells bcard" if "\<forall>row<5. \<forall>col<5. cvalue (cells bcard ! row ! col) \<noteq> Num n"
  proof (rule nth_equalityI)
    show "length ?cs = length (cells bcard)" by (rule fold(1))
  next
    fix r assume "r < length ?cs"
    then have r: "r < 5" by (simp add: fold(1) len)
    show "?cs ! r = cells bcard ! r"
    proof (rule nth_equalityI)
      show "length (?cs ! r) = length (cells bcard ! r)" by (rule fold(2))
    next
      fix c assume "c < length (?cs ! r)"
      then have c: "c < 5" by (simp add: fold(2) lens r)
      with r that show "?cs ! r ! c = cells bcard ! r ! c"
        by (simp add: cell markCell_def)
    qed
  qed
  show ?thesis
    unfolding markNumber_wf [OF assms]
    using wf same by (auto simp add: cell markCell_def)
qed

theorem markNumber_marks_witness:
  "wf_card (exampleCard [(0, 1)]) \<and>
   markNumber (exampleCard [(0, 1)]) 1 = Some (exampleCard [(0, 1), (0, 0)]) \<and>
   markNumber (exampleCard [(0, 1)]) 80 = Some (exampleCard [(0, 1)])"
proof -
  have h: "wf_card (exampleCard [(0, 1)])"
    by code_simp
  have e: "markNumber (exampleCard [(0, 1)]) 1 = Some (exampleCard [(0, 1), (0, 0)])"
    "markNumber (exampleCard [(0, 1)]) 80 = Some (exampleCard [(0, 1)])"
    by code_simp+
  from markNumber_marks [OF h, of 1] e h show ?thesis
    by simp
qed

section \<open>The special names\<close>

text \<open>
  C9. For the five special names the three matcher functions read the name and the card
  only: two patterns of the same special name, whatever their grids, give the same
  result of \<open>checkPattern\<close>, of \<open>getMissingNumbers\<close> and of \<open>getWinningPaths\<close> on every
  card (the same value, or the same \<open>TypeError\<close> on a card that is not 5x5).
\<close>

theorem special_patterns_ignore_grid:
  assumes "pattern_name p = pattern_name q" and "pattern_name p \<in> set specialNames"
  shows "checkPattern bcard p = checkPattern bcard q \<and>
         getMissingNumbers bcard p = getMissingNumbers bcard q \<and>
         getWinningPaths bcard p = getWinningPaths bcard q"
proof -
  have c: "checkPattern bcard p = checkPattern bcard q"
    using assms unfolding checkPattern_def specialNames_def by auto
  have m: "getMissingNumbers bcard p = getMissingNumbers bcard q"
    using assms unfolding getMissingNumbers_def specialNames_def by auto
  have w: "getWinningPaths bcard p = getWinningPaths bcard q"
    using assms unfolding getWinningPaths_def specialNames_def by auto
  from c m w show ?thesis by simp
qed

theorem special_patterns_ignore_grid_witness:
  "pattern_name dikit = pattern_name (dikit\<lparr>grid := []\<rparr>) \<and> pattern_name dikit \<in> set specialNames \<and>
   grid dikit \<noteq> grid (dikit\<lparr>grid := []\<rparr>) \<and>
   checkPattern (exampleCard [(0, 1)]) (dikit\<lparr>grid := []\<rparr>) = Some False \<and>
   getMissingNumbers (exampleCard [(0, 1)]) (dikit\<lparr>grid := []\<rparr>) = Some [Num 1, Num 31] \<and>
   getWinningPaths (exampleCard [(0, 1)]) (dikit\<lparr>grid := []\<rparr>) = Some [[Num 1], [Num 31]]"
proof -
  have h: "pattern_name dikit = pattern_name (dikit\<lparr>grid := []\<rparr>)" "pattern_name dikit \<in> set specialNames"
    by (simp_all add: dikit_def specialNames_def)
  have g: "grid dikit \<noteq> grid (dikit\<lparr>grid := []\<rparr>)"
    by (simp add: dikit_def)
  have e: "checkPattern (exampleCard [(0, 1)]) dikit = Some False"
    "getMissingNumbers (exampleCard [(0, 1)]) dikit = Some [Num 1, Num 31]"
    "getWinningPaths (exampleCard [(0, 1)]) dikit = Some [[Num 1], [Num 31]]"
    by code_simp+
  from special_patterns_ignore_grid [OF h, of "exampleCard [(0, 1)]"] e h g show ?thesis
    by simp
qed

section \<open>On pot: the aggregate and the paths\<close>

text \<open>
  C5. \<open>isOnPot\<close> is true iff the list \<open>getMissingNumbers\<close> returns has exactly one
  element. On the example card with only the cell at row 0, column 1 marked and the
  pattern Dikit, the pairs left and right of that cell tie at one marked cell: the
  aggregate holds the two numbers 1 and 31 and \<open>isOnPot\<close> is false, while \<open>analyzeGame\<close>
  emits two path records, each on pot with a single missing number.
\<close>

theorem isOnPot_aggregate_disagrees:
  "isOnPot bcard pattern = map_option (\<lambda>missing. length missing = 1) (getMissingNumbers bcard pattern) \<and>
   pattern_name dikit = ''Dikit'' \<and>
   getMissingNumbers (exampleCard [(0, 1)]) dikit = Some [Num 1, Num 31] \<and>
   isOnPot (exampleCard [(0, 1)]) dikit = Some False \<and>
   map_option (\<lambda>ga. map (\<lambda>a. (isOnPotFlag a, missingNumbers a)) (cardAnalyses ga))
     (analyzeGame [exampleCard [(0, 1)]] [dikit]) = Some [(True, [Num 1]), (True, [Num 31])]"
proof -
  have 1: "isOnPot bcard pattern = map_option (\<lambda>missing. length missing = 1) (getMissingNumbers bcard pattern)"
    by (cases "getMissingNumbers bcard pattern") (simp_all add: isOnPot_def)
  have 2: "pattern_name dikit = ''Dikit''"
    by (simp add: dikit_def)
  have 3: "getMissingNumbers (exampleCard [(0, 1)]) dikit = Some [Num 1, Num 31]"
    by code_simp
  have 4: "isOnPot (exampleCard [(0, 1)]) dikit = Some False"
    by code_simp
  have 5: "map_option (\<lambda>ga. map (\<lambda>a. (isOnPotFlag a, missingNumbers a)) (cardAnalyses ga))
     (analyzeGame [exampleCard [(0, 1)]] [dikit]) = Some [(True, [Num 1]), (True, [Num 31])]"
    by code_simp
  from 1 2 3 4 5 show ?thesis by blast
qed

section \<open>The analyzer on well-formed inputs\<close>

text \<open>On 5x5 cards and grids no function of the matcher throws.\<close>

lemma forEach_total:
  "(\<And>x s. x \<in> set xs \<Longrightarrow> body x s \<noteq> None) \<Longrightarrow> forEach xs body s \<noteq> None"
proof (induction xs arbitrary: s)
  case Nil
  then show ?case by simp
next
  case (Cons x xs)
  from Cons.prems [of x s] obtain s1 where "body x s = Some s1"
    by auto
  with Cons show ?case
    by simp
qed

lemma anyOf_total:
  "(\<And>x. x \<in> set xs \<Longrightarrow> test x \<noteq> None) \<Longrightarrow> anyOf xs test \<noteq> None"
proof (induction xs)
  case Nil
  then show ?case by simp
next
  case (Cons x xs)
  from Cons.prems [of x] obtain b where "test x = Some b"
    by auto
  with Cons show ?case
    by auto
qed

lemma allOf_total:
  "(\<And>x. x \<in> set xs \<Longrightarrow> test x \<noteq> None) \<Longrightarrow> allOf xs test \<noteq> None"
proof (induction xs)
  case Nil
  then show ?case by simp
next
  case (Cons x xs)
  from Cons.prems [of x] obtain b where "test x = Some b"
    by auto
  with Cons show ?case
    by auto
qed

lemma bind_total: "m \<noteq> None \<Longrightarrow> (\<And>x. f x \<noteq> None) \<Longrightarrow> Option.bind m f \<noteq> None"
  by (cases m) auto

lemma bind_pair_total:
  "m \<noteq> None \<Longrightarrow> (\<And>a b. f a b \<noteq> None) \<Longrightarrow> Option.bind m (\<lambda>(a, b). f a b) \<noteq> None"
  by (cases m) auto

lemma forEach2_total:
  assumes "\<And>row col s. row \<in> set rows \<Longrightarrow> col \<in> set cols \<Longrightarrow> body row col s \<noteq> None"
  shows "forEach rows (\<lambda>row. forEach cols (body row)) s \<noteq> None"
  by (rule forEach_total, rule forEach_total) (simp add: assms)

lemma scanLine_total:
  assumes "wf_card bcard" "\<forall>p\<in>set ps. fst p < 5 \<and> snd p < 5"
  shows "scanLine bcard ps \<noteq> None"
  unfolding scanLine_def
  using assms by (intro forEach_total) (auto simp add: cellAt_wf split: prod.splits)

lemma pairMissing_defined: "pairMissing (Some a) (Some b) st \<noteq> None"
  by (simp add: pairMissing_def)

lemma checkPattern_total:
  assumes "wf_card bcard" "wf_grid pattern"
  shows "checkPattern bcard pattern \<noteq> None"
proof -
  have line: "allOf [0..<5] (\<lambda>i. do { cell \<leftarrow> cellAt bcard (f i) (g i); readField marked cell }) \<noteq> None"
    if "\<And>i. i < 5 \<Longrightarrow> f i < 5 \<and> g i < 5" for f g
    by (rule allOf_total) (simp add: cellAt_wf assms(1) that)
  consider "pattern_name pattern = ''Dikit''" | "pattern_name pattern = ''Patong''"
    | "pattern_name pattern = ''Horizontal Line''" | "pattern_name pattern = ''Vertical Line''"
    | "pattern_name pattern = ''Diagonal Line''" | "isStandard pattern"
    unfolding isStandard_def specialNames_def by auto
  then show ?thesis
  proof cases
    case 1
    then show ?thesis by (simp add: checkPattern_Dikit assms(1))
  next
    case 2
    then show ?thesis by (simp add: checkPattern_Patong assms(1))
  next
    case 3
    have "anyOf [0..<5] (\<lambda>row. allOf [0..<5] (\<lambda>col. do {
          cell \<leftarrow> cellAt bcard row col;
          readField marked cell
        })) \<noteq> None"
      by (rule anyOf_total) (simp add: line)
    with 3 show ?thesis by (simp add: checkPattern_def)
  next
    case 4
    have "anyOf [0..<5] (\<lambda>col. allOf [0..<5] (\<lambda>row. do {
          cell \<leftarrow> cellAt bcard row col;
          readField marked cell
        })) \<noteq> None"
      by (rule anyOf_total) (simp add: line)
    with 4 show ?thesis by (simp add: checkPattern_def)
  next
    case 5
    have main: "allOf [0..<5] (\<lambda>i. do { cell \<leftarrow> cellAt bcard i i; readField marked cell }) \<noteq> None"
      by (rule line) simp
    have anti: "allOf [0..<5] (\<lambda>i. do { cell \<leftarrow> cellAt bcard i (4 - i); readField marked cell }) \<noteq> None"
      by (rule line) simp
    have "do {
        mainDiagonalComplete \<leftarrow> allOf [0..<5] (\<lambda>i. do {
          cell \<leftarrow> cellAt bcard i i;
          readField marked cell
        });
        if mainDiagonalComplete then Some True
        else allOf [0..<5] (\<lambda>i. do {
          cell \<leftarrow> cellAt bcard i (4 - i);
          readField marked cell
        })
      } \<noteq> None"
      by (rule bind_total) (use main anti in auto)
    with 5 show ?thesis by (simp add: checkPattern_def)
  next
    case 6
    then show ?thesis by (simp add: checkPattern_standard_wf assms)
  qed
qed

lemma getMissingNumbers_total:
  assumes "wf_card bcard" "wf_grid pattern"
  shows "getMissingNumbers bcard pattern \<noteq> None"
proof -
  have scan: "scanLine bcard (map h [0..<5]) \<noteq> None"
    if "\<And>i. i < 5 \<Longrightarrow> fst (h i) < 5 \<and> snd (h i) < 5" for h
    by (rule scanLine_total [OF assms(1)]) (simp add: that)
  consider "pattern_name pattern = ''Dikit''" | "pattern_name pattern = ''Patong''"
    | "pattern_name pattern = ''Horizontal Line''" | "pattern_name pattern = ''Vertical Line''"
    | "pattern_name pattern = ''Diagonal Line''" | "isStandard pattern"
    unfolding isStandard_def specialNames_def by auto
  then show ?thesis
  proof cases
    case 1
    have "forEach [0..<5] (\<lambda>row. forEach [0..<4] (\<lambda>col st. do {
          leftCell \<leftarrow> cellAt bcard row col;
          rightCell \<leftarrow> cellAt bcard row (col + 1);
          pairMissing leftCell rightCell st
        })) ([], 0) \<noteq> None"
      by (rule forEach2_total) (simp add: cellAt_wf assms(1) pairMissing_defined)
    then have "do {
        (missingSet, best) \<leftarrow> forEach [0..<5] (\<lambda>row. forEach [0..<4] (\<lambda>col st. do {
          leftCell \<leftarrow> cellAt bcard row col;
          rightCell \<leftarrow> cellAt bcard row (col + 1);
          pairMissing leftCell rightCell st
        })) ([], 0);
        Some missingSet
      } \<noteq> None"
      by (rule bind_pair_total) simp
    with 1 show ?thesis by (simp add: getMissingNumbers_def)
  next
    case 2
    have "forEach [0..<4] (\<lambda>row. forEach [0..<5] (\<lambda>col st. do {
          topCell \<leftarrow> cellAt bcard row col;
          bottomCell \<leftarrow> cellAt bcard (row + 1) col;
          pairMissing topCell bottomCell st
        })) ([], 0) \<noteq> None"
      by (rule forEach2_total) (simp add: cellAt_wf assms(1) pairMissing_defined)
    then have "do {
        (missingSet, best) \<leftarrow> forEach [0..<4] (\<lambda>row. forEach [0..<5] (\<lambda>col st. do {
          topCell \<leftarrow> cellAt bcard row col;
          bottomCell \<leftarrow> cellAt bcard (row + 1) col;
          pairMissing topCell bottomCell st
        })) ([], 0);
        Some missingSet
      } \<noteq> None"
      by (rule bind_pair_total) simp
    with 2 show ?thesis by (simp add: getMissingNumbers_def)
  next
    case 3
    have "forEach [0..<5] (\<lambda>row st. do {
          (markedCount, rowMissing) \<leftarrow> scanLine bcard (map (\<lambda>col. (row, col)) [0..<5]);
          Some (addLineMissing markedCount rowMissing st)
        }) ([], 0) \<noteq> None"
      by (rule forEach_total, rule bind_pair_total) (simp_all add: scan)
    then have "do {
        (missingSet, best) \<leftarrow> forEach [0..<5] (\<lambda>row st. do {
          (markedCount, rowMissing) \<leftarrow> scanLine bcard (map (\<lambda>col. (row, col)) [0..<5]);
          Some (addLineMissing markedCount rowMissing st)
        }) ([], 0);
        Some missingSet
      } \<noteq> None"
      by (rule bind_pair_total) simp
    with 3 show ?thesis by (simp add: getMissingNumbers_def)
  next
    case 4
    have "forEach [0..<5] (\<lambda>col st. do {
          (markedCount, colMissing) \<leftarrow> scanLine bcard (map (\<lambda>row. (row, col)) [0..<5]);
          Some (addLineMissing markedCount colMissing st)
        }) ([], 0) \<noteq> None"
      by (rule forEach_total, rule bind_pair_total) (simp_all add: scan)
    then have "do {
        (missingSet, best) \<leftarrow> forEach [0..<5] (\<lambda>col st. do {
          (markedCount, colMissing) \<leftarrow> scanLine bcard (map (\<lambda>row. (row, col)) [0..<5]);
          Some (addLineMissing markedCount colMissing st)
        }) ([], 0);
        Some missingSet
      } \<noteq> None"
      by (rule bind_pair_total) simp
    with 4 show ?thesis by (simp add: getMissingNumbers_def)
  next
    case 5
    have "scanLine bcard (map (\<lambda>i. (i, i)) [0..<5]) \<noteq> None"
      by (rule scan) simp
    then obtain m1 where m1: "scanLine bcard (map (\<lambda>i. (i, i)) [0..<5]) = Some m1"
      by auto
    have "scanLine bcard (map (\<lambda>i. (i, 4 - i)) [0..<5]) \<noteq> None"
      by (rule scan) simp
    then obtain m2 where m2: "scanLine bcard (map (\<lambda>i. (i, 4 - i)) [0..<5]) = Some m2"
      by auto
    from 5 show ?thesis
      by (simp add: getMissingNumbers_def m1 m2 Let_def split: prod.splits)
  next
    case 6
    then show ?thesis
      by (simp add: getMissingNumbers_def isStandard_def specialNames_def standardMissing_wf assms)
  qed
qed

lemma getWinningPaths_total:
  assumes "wf_card bcard" "wf_grid pattern"
  shows "getWinningPaths bcard pattern \<noteq> None"
proof -
  have scan: "scanLine bcard (map h [0..<5]) \<noteq> None"
    if "\<And>i. i < 5 \<Longrightarrow> fst (h i) < 5 \<and> snd (h i) < 5" for h
    by (rule scanLine_total [OF assms(1)]) (simp add: that)
  consider "pattern_name pattern = ''Dikit''" | "pattern_name pattern = ''Patong''"
    | "pattern_name pattern = ''Horizontal Line''" | "pattern_name pattern = ''Vertical Line''"
    | "pattern_name pattern = ''Diagonal Line''" | "isStandard pattern"
    unfolding isStandard_def specialNames_def by auto
  then show ?thesis
  proof cases
    case 1
    then show ?thesis by (simp add: getWinningPaths_Dikit assms(1))
  next
    case 2
    then show ?thesis by (simp add: getWinningPaths_Patong assms(1))
  next
    case 3
    have "forEach [0..<5] (\<lambda>row st. do {
          (markedCount, rowMissing) \<leftarrow> scanLine bcard (map (\<lambda>col. (row, col)) [0..<5]);
          Some (addLinePath markedCount rowMissing st)
        }) ([], 0) \<noteq> None"
      by (rule forEach_total, rule bind_pair_total) (simp_all add: scan)
    then have "do {
        (paths, best) \<leftarrow> forEach [0..<5] (\<lambda>row st. do {
          (markedCount, rowMissing) \<leftarrow> scanLine bcard (map (\<lambda>col. (row, col)) [0..<5]);
          Some (addLinePath markedCount rowMissing st)
        }) ([], 0);
        Some paths
      } \<noteq> None"
      by (rule bind_pair_total) simp
    with 3 show ?thesis by (simp add: getWinningPaths_def)
  next
    case 4
    have "forEach [0..<5] (\<lambda>col st. do {
          (markedCount, colMissing) \<leftarrow> scanLine bcard (map (\<lambda>row. (row, col)) [0..<5]);
          Some (addLinePath markedCount colMissing st)
        }) ([], 0) \<noteq> None"
      by (rule forEach_total, rule bind_pair_total) (simp_all add: scan)
    then have "do {
        (paths, best) \<leftarrow> forEach [0..<5] (\<lambda>col st. do {
          (markedCount, colMissing) \<leftarrow> scanLine bcard (map (\<lambda>row. (row, col)) [0..<5]);
          Some (addLinePath markedCount colMissing st)
        }) ([], 0);
        Some paths
      } \<noteq> None"
      by (rule bind_pair_total) simp
    with 4 show ?thesis by (simp add: getWinningPaths_def)
  next
    case 5
    have "scanLine bcard (map (\<lambda>i. (i, i)) [0..<5]) \<noteq> None"
      by (rule scan) simp
    then obtain m1 where m1: "scanLine bcard (map (\<lambda>i. (i, i)) [0..<5]) = Some m1"
      by auto
    have "scanLine bcard (map (\<lambda>i. (i, 4 - i)) [0..<5]) \<noteq> None"
      by (rule scan) simp
    then obtain m2 where m2: "scanLine bcard (map (\<lambda>i. (i, 4 - i)) [0..<5]) = Some m2"
      by auto
    from 5 show ?thesis
      by (simp add: getWinningPaths_def m1 m2 Let_def split: prod.splits)
  next
    case 6
    then show ?thesis
      by (simp add: getWinningPaths_def isStandard_def specialNames_def standardMissing_wf assms)
  qed
qed

lemma foldl_count:
  "foldl (\<lambda>n x. if P x then n + 1 else n) (start::int) xs = start + int (length (filter P xs))"
  by (induction xs arbitrary: start) simp_all

lemma countRequired_wf:
  assumes "wf_grid pattern"
  shows "countRequired pattern start = Some (start + int (requiredCount pattern))"
proof -
  have "countRequired pattern start =
        Some (foldl (\<lambda>n p. if (case p of (row, col) \<Rightarrow> grid pattern ! row ! col) then n + 1 else n) start squares)"
    unfolding countRequired_def squares_def
    by (rule forEach2_pure) (simp add: gridAt_wf assms)
  then show ?thesis
    by (simp only: foldl_count requiredCount_def)
qed

lemma analyzeCardForPattern_wf:
  assumes "wf_card bcard" "wf_grid pattern"
  shows "\<exists>a. analyzeCardForPattern bcard pattern = Some a \<and> cardRecordOk pattern a \<and>
             cardId a = card_id bcard \<and> patternId a = pattern_id pattern \<and>
             patternName a = pattern_name pattern \<and> checkPattern bcard pattern = Some (isWinner a)"
proof -
  obtain won where won: "checkPattern bcard pattern = Some won"
    using checkPattern_total [OF assms] by auto
  obtain missing where missing: "getMissingNumbers bcard pattern = Some missing"
    using getMissingNumbers_total [OF assms] by auto
  show ?thesis
    by (simp add: analyzeCardForPattern_def won missing isOnPot_def countRequired_wf assms(2)
        cardRecordOk_def)
qed

text \<open>A loop that only appends records: every record of the result is old or new.\<close>

lemma forEach_grow:
  assumes "\<And>x s. x \<in> set xs \<Longrightarrow>
             \<exists>s'. body x s = Some s' \<and> (\<forall>a\<in>set (fst s'). a \<in> set (fst s) \<or> P x a)"
  shows "\<exists>s'. forEach xs body s = Some s' \<and>
              (\<forall>a\<in>set (fst s'). a \<in> set (fst s) \<or> (\<exists>x\<in>set xs. P x a))"
  using assms
proof (induction xs arbitrary: s)
  case Nil
  then show ?case by simp
next
  case (Cons x xs)
  from Cons.prems [of x s] obtain s1
    where s1: "body x s = Some s1" "\<forall>a\<in>set (fst s1). a \<in> set (fst s) \<or> P x a"
    by auto
  from Cons.IH [of s1] Cons.prems obtain s2
    where s2: "forEach xs body s1 = Some s2"
      "\<forall>a\<in>set (fst s2). a \<in> set (fst s1) \<or> (\<exists>x\<in>set xs. P x a)"
    by (metis list.set_intros(2))
  from s1 s2 show ?case
    by auto
qed

lemma analyzePath_grow:
  assumes "wf_grid pattern"
  shows "\<exists>s'. analyzePath bcard pattern pathCount ip s = Some s' \<and>
              (\<forall>a\<in>set (fst s'). a \<in> set (fst s) \<or> recordFrom bcard pattern a)"
proof -
  obtain i pathMissing where ip: "ip = (i, pathMissing)"
    by (cases ip)
  obtain analyses pots winners nextNumbersSet where s: "s = (analyses, pots, winners, nextNumbersSet)"
    by (cases s)
  show ?thesis
    unfolding ip s
    by (auto simp add: countRequired_wf assms recordFrom_def pathRecordOk_def categoryRequired_def Let_def)
qed

lemma analyzeCombination_grow:
  assumes "wf_card bcard" "wf_grid pattern"
  shows "\<exists>s'. analyzeCombination bcard pattern s = Some s' \<and>
              (\<forall>a\<in>set (fst s'). a \<in> set (fst s) \<or> recordFrom bcard pattern a)"
proof -
  obtain analyses pots winners nextNumbersSet where s: "s = (analyses, pots, winners, nextNumbersSet)"
    by (cases s)
  obtain a where a: "analyzeCardForPattern bcard pattern = Some a"
    "cardId a = card_id bcard" "patternId a = pattern_id pattern"
    "patternName a = pattern_name pattern" "checkPattern bcard pattern = Some (isWinner a)"
    using analyzeCardForPattern_wf [OF assms] by blast
  obtain paths where paths: "getWinningPaths bcard pattern = Some paths"
    using getWinningPaths_total [OF assms] by auto
  show ?thesis
  proof (cases "isWinner a")
    case True
    with a show ?thesis
      by (simp add: s recordFrom_def)
  next
    case False
    have "\<exists>s'. forEach (enumerate 0 paths) (analyzePath bcard pattern (length paths)) s = Some s' \<and>
              (\<forall>a\<in>set (fst s'). a \<in> set (fst s) \<or>
                 (\<exists>x\<in>set (enumerate 0 paths). recordFrom bcard pattern a))"
      by (rule forEach_grow) (rule analyzePath_grow [OF assms(2)])
    with False a(5) paths show ?thesis
      by (auto simp add: s)
  qed
qed

lemma analyzeGame_wf:
  assumes "\<forall>bcard\<in>set cards. wf_card bcard" and "\<forall>pattern\<in>set patterns. wf_grid pattern"
  shows "\<exists>ga. analyzeGame cards patterns = Some ga \<and>
              (\<forall>a\<in>set (cardAnalyses ga). \<exists>bcard\<in>set cards. \<exists>pattern\<in>set patterns.
                  recordFrom bcard pattern a)"
proof -
  have inner: "\<exists>s'. forEach patterns (\<lambda>pattern. analyzeCombination bcard pattern) s = Some s' \<and>
              (\<forall>a\<in>set (fst s'). a \<in> set (fst s) \<or> (\<exists>pattern\<in>set patterns. recordFrom bcard pattern a))"
    if "bcard \<in> set cards" for bcard s
  proof (rule forEach_grow)
    fix pattern s0
    assume "pattern \<in> set patterns"
    with that assms have "wf_card bcard" "wf_grid pattern"
      by auto
    then show "\<exists>s'. analyzeCombination bcard pattern s0 = Some s' \<and>
              (\<forall>a\<in>set (fst s'). a \<in> set (fst s0) \<or> recordFrom bcard pattern a)"
      by (rule analyzeCombination_grow)
  qed
  have "\<exists>s'. forEach cards (\<lambda>bcard. forEach patterns (\<lambda>pattern. analyzeCombination bcard pattern))
                ([], [], [], []) = Some s' \<and>
              (\<forall>a\<in>set (fst s'). a \<in> set (fst ([], [], [], [])) \<or>
                  (\<exists>bcard\<in>set cards. \<exists>pattern\<in>set patterns. recordFrom bcard pattern a))"
    using forEach_grow [of cards "\<lambda>bcard. forEach patterns (\<lambda>pattern. analyzeCombination bcard pattern)"
        "\<lambda>bcard a. \<exists>pattern\<in>set patterns. recordFrom bcard pattern a" "([], [], [], [])", OF inner]
    by simp
  then obtain s' where s': "forEach cards (\<lambda>bcard. forEach patterns (\<lambda>pattern. analyzeCombination bcard pattern))
                ([], [], [], []) = Some s'"
      "\<forall>a\<in>set (fst s'). \<exists>bcard\<in>set cards. \<exists>pattern\<in>set patterns. recordFrom bcard pattern a"
    by auto
  obtain analyses pots winners nextNumbersSet where s: "s' = (analyses, pots, winners, nextNumbersSet)"
    by (cases s')
  from s' show ?thesis
    by (simp add: analyzeGame_def s)
qed

text \<open>
  C1, as amended. On 5x5 cards and patterns with 5x5 grids, \<open>analyzeCardForPattern\<close>
  returns a record for every card and pattern of the game: for a pattern named Dikit or
  Patong its \<open>totalRequired\<close> is 2 and its \<open>totalMarked\<close> is 2 when \<open>missingNumbers\<close> is
  empty and 1 otherwise; for any other pattern its \<open>totalMarked\<close> is \<open>totalRequired\<close>
  less the length of \<open>missingNumbers\<close>. \<open>analyzeGame\<close> returns an analysis, and every
  record of its \<open>cardAnalyses\<close> comes from a card and a pattern of the game: it is
  either a winner record, equal to what \<open>analyzeCardForPattern\<close> returns for them, or a
  per-path record, whose \<open>totalRequired\<close> follows the pattern-category rule (2 for Dikit
  and Patong, 5 for the three line patterns, the number of true cells of the grid for a
  standard pattern) and whose \<open>totalMarked\<close> is \<open>totalRequired\<close> less the length of
  \<open>missingNumbers\<close>.
\<close>

theorem analysis_totals:
  assumes "\<forall>bcard\<in>set cards. wf_card bcard" and "\<forall>pattern\<in>set patterns. wf_grid pattern"
  shows "(\<forall>bcard\<in>set cards. \<forall>pattern\<in>set patterns.
            \<exists>a. analyzeCardForPattern bcard pattern = Some a \<and> cardRecordOk pattern a) \<and>
         (\<exists>ga. analyzeGame cards patterns = Some ga \<and>
            (\<forall>a\<in>set (cardAnalyses ga). \<exists>bcard\<in>set cards. \<exists>pattern\<in>set patterns.
                recordFrom bcard pattern a))"
  using assms analyzeCardForPattern_wf analyzeGame_wf [OF assms] by blast

theorem analysis_totals_witness:
  "wf_card (exampleCard [(0, 0), (0, 1)]) \<and> wf_grid dikit \<and> wf_grid fourCorners \<and>
   map_option (\<lambda>ga. map (\<lambda>a. (patternName a, isWinner a, totalRequired a, totalMarked a, missingNumbers a))
                        (cardAnalyses ga))
     (analyzeGame [exampleCard [(0, 0), (0, 1)]] [dikit, fourCorners]) =
     Some [(''Dikit'', True, 2, 2, []), (''Four Corners'', False, 4, 1, [Num 61, Num 5, Num 65])] \<and>
   categoryRequired dikit = 2 \<and> categoryRequired fourCorners = 4"
proof -
  have c: "\<forall>bcard\<in>set [exampleCard [(0, 0), (0, 1)]]. wf_card bcard"
    by code_simp
  have p: "\<forall>pattern\<in>set [dikit, fourCorners]. wf_grid pattern"
    by code_simp
  have e: "map_option (\<lambda>ga. map (\<lambda>a. (patternName a, isWinner a, totalRequired a, totalMarked a, missingNumbers a))
                        (cardAnalyses ga))
     (analyzeGame [exampleCard [(0, 0), (0, 1)]] [dikit, fourCorners]) =
     Some [(''Dikit'', True, 2, 2, []), (''Four Corners'', False, 4, 1, [Num 61, Num 5, Num 65])]"
    "categoryRequired dikit = 2" "categoryRequired fourCorners = 4"
    by code_simp+
  from analysis_totals [OF c p] c p e show ?thesis
    by simp
qed

text \<open>
  C1 as stated fails for a record of \<open>analyzeCardForPattern\<close> on Dikit with two tied
  pairs: the cell at row 0, column 1 is the only marked one, two numbers are missing,
  \<open>totalRequired\<close> is 2 and \<open>totalMarked\<close> is 1, not 0.
\<close>

theorem analyzeCardForPattern_totalMarked_counterexample:
  "analyzeCardForPattern (exampleCard [(0, 1)]) dikit =
     Some \<lparr>cardId = ''card_1'', patternId = ''pattern_3'', patternName = ''Dikit'',
           isWinner = False, isOnPotFlag = False, missingNumbers = [Num 1, Num 31],
           totalRequired = 2, totalMarked = 1, pathIndex = None\<rparr> \<and>
   (1::int) \<noteq> 2 - int (length [Num 1, Num 31])"
  by code_simp

text \<open>
  The count of \<open>analyzeCardForPattern\<close> for a pattern other than Dikit and Patong starts
  from the 2 that \<open>totalRequired\<close> is initialised with, where \<open>analyzeGame\<close> resets it
  to 0: a won Four Corners has \<open>totalRequired = 6\<close> for the 4 true cells of its grid.
\<close>

lemma analyzeCardForPattern_counts_from_two:
  "analyzeCardForPattern (exampleCard [(0, 0), (0, 4), (4, 0), (4, 4)]) fourCorners =
     Some \<lparr>cardId = ''card_1'', patternId = ''pattern_1'', patternName = ''Four Corners'',
           isWinner = True, isOnPotFlag = False, missingNumbers = [],
           totalRequired = 6, totalMarked = 6, pathIndex = None\<rparr> \<and>
   requiredCount fourCorners = 4"
  by code_simp

end
